theory Spec2Isabelle
  imports Complex_Main "HOL-Library.Word"
begin

section \<open>Python values and exceptions\<close>

text \<open>
  The operations module threads a value through a list of widgets. A widget is a Python
  object, and the code of \<^verbatim>\<open>setup\<close> asks three things of it, in this order:
  \<^verbatim>\<open>callable(w)\<close>, \<^verbatim>\<open>isinstance(w, (tuple, list))\<close> and \<^verbatim>\<open>w is None\<close>. The datatype has one
  constructor for each answer and one for every other object (a number, a string, a
  tensor); the three answers exclude each other, as they do for the built-in classes (a
  tuple or list is not callable). Callables are named by an identifier of type \<open>'f\<close>; what
  a call does is given by a function \<open>call\<close>, which the operations take as their first
  argument: \<open>call f y args\<close> is the outcome of the Python call \<^verbatim>\<open>f(y, *args)\<close>, either an
  exception that the callee raised (\<open>Inl\<close>) or the value it returned (\<open>Inr\<close>). A call is a
  function of its arguments: what a callee does besides returning or raising is outside
  the model.
\<close>

datatype ('f, 'c) pyobj =
    Callable 'f
  | PyTuple "('f, 'c) pyobj list"
  | PyList "('f, 'c) pyobj list"
  | PyNone
  | Opaque 'c

text \<open>
  Exceptions of the Python library, of numpy and of TensorFlow, as far as the modelled
  code can meet them.
\<close>

datatype py_error =
    IndexError
  | ValueError string
  | OverflowError
  | MemoryError
  | InvalidArgumentError

text \<open>
  What a call of \<^verbatim>\<open>setup\<close> can raise: its own \<^verbatim>\<open>ValueError\<close> (line 121, with the
  offending entry), the interpreter's \<^verbatim>\<open>TypeError\<close> for the call of an object that is not
  callable (the head of a tuple widget is called unchecked), an exception that a callee
  raised and \<^verbatim>\<open>setup\<close> lets through, and a failure of a library primitive.
\<close>

datatype ('w, 'e) exn =
    NotCallableValueError 'w
  | CallTypeError 'w
  | Raised 'e
  | Library py_error

type_synonym ('f, 'c, 'e, 'v) calls = "'f \<Rightarrow> 'v \<Rightarrow> ('f, 'c) pyobj list \<Rightarrow> 'e + 'v"

text \<open>
  \<^verbatim>\<open>a[i] = v\<close> on a Python list: a negative index counts from the end, an index outside
  \<open>[-n, n)\<close> raises \<^verbatim>\<open>IndexError\<close>.
\<close>

definition setitem :: "'a list \<Rightarrow> int \<Rightarrow> 'a \<Rightarrow> py_error + 'a list" where
  "setitem a i v =
     (let n = int (length a); j = (if i < 0 then i + n else i)
      in if 0 \<le> j \<and> j < n then Inr (a[nat j := v]) else Inl IndexError)"

text \<open>Sequencing of two steps that may raise: the second runs on the value of the first.\<close>

definition and_then :: "'x + 'a \<Rightarrow> ('a \<Rightarrow> 'x + 'b) \<Rightarrow> 'x + 'b" where
  "and_then r k = (case r of Inl e \<Rightarrow> Inl e | Inr v \<Rightarrow> k v)"

section \<open>Tensors and the framework's primitives\<close>

text \<open>
  A tensor is its shape and its entries: \<open>entry t idx\<close> is the entry at the index tuple
  \<open>idx\<close>, which matters only where \<open>idx\<close> is an index of the shape (as long as the shape,
  each component below its dimension). The operations module never looks inside a tensor:
  it calls TensorFlow's primitives, and those are defined here by what TensorFlow documents
  them to compute. Where arithmetic is involved the entries are real numbers: the
  rounding of the framework's floating-point numbers, their infinities and their NaN (the
  logarithm of a number that is not positive, a division by zero) are not part of the
  model.
\<close>

record 'a tensor =
  shape :: "nat list"
  entry :: "nat list \<Rightarrow> 'a"

text \<open>All index tuples of a shape, in row-major order.\<close>

fun indices :: "nat list \<Rightarrow> nat list list" where
  "indices [] = [[]]"
| "indices (d # ds) = concat (map (\<lambda>i. map ((#) i) (indices ds)) [0..<d])"

text \<open>Two tensors are the same tensor: equal shapes, equal entries at every index.\<close>

definition tensor_eq :: "'a tensor \<Rightarrow> 'a tensor \<Rightarrow> bool" where
  "tensor_eq t u \<longleftrightarrow>
     shape t = shape u \<and> (\<forall>idx \<in> set (indices (shape t)). entry t idx = entry u idx)"

text \<open>\<^verbatim>\<open>tf.fill(dims, c)\<close>; \<^verbatim>\<open>tf.zeros(shape)\<close> is \<open>tf_fill shape 0\<close>.\<close>

definition tf_fill :: "nat list \<Rightarrow> 'a \<Rightarrow> 'a tensor" where
  "tf_fill dims c = \<lparr>shape = dims, entry = (\<lambda>idx. c)\<rparr>"

text \<open>
  An operation applied to every entry: \<^verbatim>\<open>tf.log(t)\<close>, \<^verbatim>\<open>t ** 2\<close>, and the arithmetic of a
  tensor with a Python number (\<^verbatim>\<open>t + e\<close>, \<^verbatim>\<open>t - 1\<close>, \<^verbatim>\<open>0.5 * t\<close>).
\<close>

definition tmap :: "('a \<Rightarrow> 'b) \<Rightarrow> 'a tensor \<Rightarrow> 'b tensor" where
  "tmap f t = \<lparr>shape = shape t, entry = (\<lambda>idx. f (entry t idx))\<rparr>"

text \<open>
  Arithmetic of two tensors is entry by entry after broadcasting: the shapes are aligned
  at their last axes, two dimensions are compatible when they are equal or one of them is
  \<open>1\<close>, and an operand is read at index \<open>0\<close> along an axis where its dimension is \<open>1\<close>.
  Incompatible shapes are refused. \<open>broadcast_rev\<close> works on the reversed shapes.
\<close>

fun broadcast_rev :: "nat list \<Rightarrow> nat list \<Rightarrow> nat list option" where
  "broadcast_rev [] ys = Some ys"
| "broadcast_rev xs [] = Some xs"
| "broadcast_rev (x # xs) (y # ys) =
     (if x = y \<or> y = 1 then map_option ((#) x) (broadcast_rev xs ys)
      else if x = 1 then map_option ((#) y) (broadcast_rev xs ys)
      else None)"

definition broadcast_shape :: "nat list \<Rightarrow> nat list \<Rightarrow> nat list option" where
  "broadcast_shape s1 s2 = map_option rev (broadcast_rev (rev s1) (rev s2))"

definition operand_index :: "nat list \<Rightarrow> nat list \<Rightarrow> nat list" where
  "operand_index s idx =
     map2 (\<lambda>d i. if d = 1 then 0 else i) s (drop (length idx - length s) idx)"

definition elementwise :: "('a \<Rightarrow> 'a \<Rightarrow> 'a) \<Rightarrow> 'a tensor \<Rightarrow> 'a tensor
    \<Rightarrow> py_error + 'a tensor" where
  "elementwise f a b =
     (case broadcast_shape (shape a) (shape b) of
        None \<Rightarrow> Inl InvalidArgumentError
      | Some s \<Rightarrow>
          Inr \<lparr>shape = s,
               entry = (\<lambda>idx. f (entry a (operand_index (shape a) idx))
                                (entry b (operand_index (shape b) idx)))\<rparr>)"

text \<open>\<^verbatim>\<open>tf.reduce_sum(t, axis)\<close>: the axis is summed away; it must be an axis of \<open>t\<close>.\<close>

definition tf_reduce_sum :: "real tensor \<Rightarrow> nat \<Rightarrow> py_error + real tensor" where
  "tf_reduce_sum t axis =
     (if axis < length (shape t) then
        Inr \<lparr>shape = take axis (shape t) @ drop (Suc axis) (shape t),
             entry = (\<lambda>idx. \<Sum>j\<leftarrow>[0..<shape t ! axis].
                       entry t (take axis idx @ j # drop axis idx))\<rparr>
      else Inl InvalidArgumentError)"

text \<open>
  \<^verbatim>\<open>tf.transpose(a, perm)\<close>: \<open>perm\<close> must be a permutation of the axes \<open>0, ..., n - 1\<close>; axis
  \<open>i\<close> of the result is axis \<open>perm[i]\<close> of \<open>a\<close>. So the entry of the result at \<open>idx\<close> is the
  entry of \<open>a\<close> at the index whose component \<open>perm[i]\<close> is \<open>idx[i]\<close>.
\<close>

fun position :: "'a list \<Rightarrow> 'a \<Rightarrow> nat" where
  "position [] x = 0"
| "position (y # ys) x = (if x = y then 0 else Suc (position ys x))"

definition is_permutation :: "nat \<Rightarrow> int list \<Rightarrow> bool" where
  "is_permutation n perm \<longleftrightarrow>
     length perm = n \<and> distinct perm \<and> list_all (\<lambda>p. 0 \<le> p \<and> p < int n) perm"

definition tf_transpose :: "'a tensor \<Rightarrow> int list \<Rightarrow> py_error + 'a tensor" where
  "tf_transpose a perm =
     (if is_permutation (length (shape a)) perm then
        Inr \<lparr>shape = map (\<lambda>p. shape a ! nat p) perm,
             entry = (\<lambda>idx. entry a (map (\<lambda>k. idx ! position perm (int k)) [0..<length perm]))\<rparr>
      else Inl InvalidArgumentError)"









section \<open>KL divergence\<close>

text \<open>
  \<^verbatim>\<open>kl_normal(mu0, var0, mu1=0.0, var1=1.0)\<close>, lines 68 to 76. The first two arguments are
  tensors. The last two are Python floats (the defaults are) or tensors: the test of line
  70 compares them with \<^verbatim>\<open>==\<close> in Python, where a float equals \<open>0.0\<close> by its value and a
  tensor of the framework is equal only to itself, so never to a float.
\<close>

datatype 'a operand = PyFloat 'a | Tensor "'a tensor"

fun py_equals :: "real operand \<Rightarrow> real \<Rightarrow> bool" where
  "py_equals (PyFloat c) d = (c = d)"
| "py_equals (Tensor t) d = False"

text \<open>\<^verbatim>\<open>var1 += e\<close>, \<^verbatim>\<open>t / var1\<close> and \<^verbatim>\<open>t - mu1\<close> for a float or a tensor on the right.\<close>

fun plus_float :: "real operand \<Rightarrow> real \<Rightarrow> real operand" where
  "plus_float (PyFloat c) e = PyFloat (c + e)"
| "plus_float (Tensor t) e = Tensor (tmap (\<lambda>v. v + e) t)"

fun divided_by :: "real tensor \<Rightarrow> real operand \<Rightarrow> py_error + real tensor" where
  "divided_by t (PyFloat c) = Inr (tmap (\<lambda>v. v / c) t)"
| "divided_by t (Tensor u) = elementwise (/) t u"

fun subtract :: "real tensor \<Rightarrow> real operand \<Rightarrow> py_error + real tensor" where
  "subtract t (PyFloat c) = Inr (tmap (\<lambda>v. v - c) t)"
| "subtract t (Tensor u) = elementwise (-) t u"

text \<open>Line 71: \<^verbatim>\<open>var0 + mu0 ** 2 - 1 - tf.log(var0)\<close>.\<close>

definition kl_standard :: "real tensor \<Rightarrow> real tensor \<Rightarrow> py_error + real tensor" where
  "kl_standard mu0 var0 =
     and_then (elementwise (+) var0 (tmap (\<lambda>v. v\<^sup>2) mu0)) (\<lambda>s.
     elementwise (-) (tmap (\<lambda>v. v - 1) s) (tmap ln var0))"

text \<open>
  Line 74, with \<open>var1\<close> as line 73 left it:
  \<^verbatim>\<open>var0 / var1 + (mu0 - mu1) ** 2 / var1 - 1 - tf.log(var0 / var1)\<close>.
\<close>

definition kl_general :: "real tensor \<Rightarrow> real tensor \<Rightarrow> real operand \<Rightarrow> real operand
    \<Rightarrow> py_error + real tensor" where
  "kl_general mu0 var0 mu1 var1 =
     and_then (divided_by var0 var1) (\<lambda>q.
     and_then (subtract mu0 mu1) (\<lambda>d.
     and_then (divided_by (tmap (\<lambda>v. v\<^sup>2) d) var1) (\<lambda>r.
     and_then (elementwise (+) q r) (\<lambda>s.
     and_then (divided_by var0 var1) (\<lambda>q'.
     elementwise (-) (tmap (\<lambda>v. v - 1) s) (tmap ln q'))))))"

text \<open>Line 75: \<^verbatim>\<open>0.5 * tf.reduce_sum(kl, 1)\<close>.\<close>

definition kl_reduce :: "real tensor \<Rightarrow> py_error + real tensor" where
  "kl_reduce kl = and_then (tf_reduce_sum kl 1) (\<lambda>s. Inr (tmap (\<lambda>v. (1 / 2) * v) s))"

definition kl_normal :: "real tensor \<Rightarrow> real tensor \<Rightarrow> real operand \<Rightarrow> real operand
    \<Rightarrow> py_error + real tensor" where
  "kl_normal mu0 var0 mu1 var1 =
     (let e = 1 / 10 ^ 4;
          var0 = tmap (\<lambda>v. v + e) var0
      in and_then
           (if py_equals mu1 0 \<and> py_equals var1 1 then kl_standard mu0 var0
            else kl_general mu0 var0 mu1 (plus_float var1 e))
           kl_reduce)"

section \<open>Gradient clipping\<close>

text \<open>
  \<^verbatim>\<open>tf.global_norm(t_list)\<close> is the square root of the sum of the squares of all entries
  of all tensors of the list. \<^verbatim>\<open>tf.clip_by_global_norm(t_list, clip_norm)\<close> returns every
  tensor multiplied by one factor, together with the global norm. Both skip the entries
  that are \<^verbatim>\<open>None\<close> (a variable without a gradient) and accept the empty list.

  TensorFlow computes the factor as \<open>clip_norm * min(1 / global_norm, 1 / clip_norm)\<close> in
  floating point, where \<open>1 / 0\<close> is infinity. For a positive \<open>clip_norm\<close> that is
  \<open>clip_norm / max(global_norm, clip_norm)\<close>, the documented factor; for a negative one the
  minimum is \<open>1 / clip_norm\<close> and the factor is \<open>1\<close>; for \<open>clip_norm = 0\<close> the factor is
  \<open>0 * (1 / global_norm)\<close>, which is \<open>0\<close> for a positive global norm and not a number for
  the global norm \<open>0\<close> (a case outside the model, where \<open>clip_scale\<close> is \<open>0\<close> as well).
\<close>

definition sum_squares :: "real tensor \<Rightarrow> real" where
  "sum_squares t = (\<Sum>idx\<leftarrow>indices (shape t). (entry t idx)\<^sup>2)"

definition tf_global_norm :: "real tensor option list \<Rightarrow> real" where
  "tf_global_norm t_list =
     sqrt (\<Sum>t\<leftarrow>t_list. case t of None \<Rightarrow> 0 | Some v \<Rightarrow> sum_squares v)"

definition clip_scale :: "real \<Rightarrow> real \<Rightarrow> real" where
  "clip_scale global_norm clip_norm =
     (if 0 < clip_norm then clip_norm / max global_norm clip_norm
      else if clip_norm < 0 then 1
      else 0)"

definition tf_clip_by_global_norm :: "real tensor option list \<Rightarrow> real
    \<Rightarrow> real tensor option list \<times> real" where
  "tf_clip_by_global_norm t_list clip_norm =
     (let global_norm = tf_global_norm t_list;
          scale = clip_scale global_norm clip_norm
      in (map (map_option (tmap (\<lambda>v. v * scale))) t_list, global_norm))"

text \<open>\<^verbatim>\<open>clip_gradient(pair_list, max_norm)\<close>, lines 88 to 92.\<close>

definition clip_gradient :: "(real tensor option \<times> 'var) list \<Rightarrow> real
    \<Rightarrow> (real tensor option \<times> 'var) list \<times> real \<times> real" where
  "clip_gradient pair_list max_norm =
     (let grad_list = map (\<lambda>(grad, _). grad) pair_list;
          (grad_list, raw_grad) = tf_clip_by_global_norm grad_list max_norm;
          grad = tf_global_norm grad_list;
          pair_list = map (\<lambda>(grad, pair). (grad, snd pair)) (zip grad_list pair_list)
      in (pair_list, raw_grad, grad))"

section \<open>Sequential composition\<close>

fun callable :: "('f, 'c) pyobj \<Rightarrow> bool" where
  "callable (Callable f) = True"
| "callable w = False"

fun is_tuple_or_list :: "('f, 'c) pyobj \<Rightarrow> bool" where
  "is_tuple_or_list (PyTuple ws) = True"
| "is_tuple_or_list (PyList ws) = True"
| "is_tuple_or_list w = False"

fun is_None :: "('f, 'c) pyobj \<Rightarrow> bool" where
  "is_None PyNone = True"
| "is_None w = False"

text \<open>The elements of a tuple or list; used only where \<open>is_tuple_or_list\<close> holds.\<close>

fun items :: "('f, 'c) pyobj \<Rightarrow> ('f, 'c) pyobj list" where
  "items (PyTuple ws) = ws"
| "items (PyList ws) = ws"
| "items w = []"

text \<open>The call expression \<^verbatim>\<open>fn(y, *args)\<close> on an arbitrary object \<open>fn\<close>.\<close>

fun invoke :: "('f, 'c, 'e, 'v) calls \<Rightarrow> ('f, 'c) pyobj \<Rightarrow> 'v \<Rightarrow> ('f, 'c) pyobj list
    \<Rightarrow> (('f, 'c) pyobj, 'e) exn + 'v" where
  "invoke call (Callable f) y args =
     (case call f y args of Inl e \<Rightarrow> Inl (Raised e) | Inr v \<Rightarrow> Inr v)"
| "invoke call fn y args = Inl (CallTypeError fn)"

text \<open>
  The loop of \<^verbatim>\<open>setup\<close> (lines 105 to 122): \<open>y\<close> is the running value, the list holds the
  widgets still to come. An exception ends the loop at once.
\<close>

fun setup_loop :: "('f, 'c, 'e, 'v) calls \<Rightarrow> 'v \<Rightarrow> ('f, 'c) pyobj list
    \<Rightarrow> (('f, 'c) pyobj, 'e) exn + 'v" where
  "setup_loop call y [] = Inr y"
| "setup_loop call y (w # ws) =
     (if callable w then
        (case invoke call w y [] of
           Inl e \<Rightarrow> Inl e
         | Inr y' \<Rightarrow> setup_loop call y' ws)
      else if is_tuple_or_list w then
        (if length (items w) > 0 then
           (case invoke call (hd (items w)) y (tl (items w)) of
              Inl e \<Rightarrow> Inl e
            | Inr y' \<Rightarrow> setup_loop call y' ws)
         else setup_loop call y ws)
      else if is_None w then setup_loop call y ws
      else Inl (NotCallableValueError w))"

text \<open>
  Lines 103 and 104: an argument that is neither a list nor a tuple becomes the list
  holding it.
\<close>

definition as_widget_list :: "('f, 'c) pyobj \<Rightarrow> ('f, 'c) pyobj list" where
  "as_widget_list widget_list =
     (if \<not> is_tuple_or_list widget_list then [widget_list] else items widget_list)"

text \<open>
  \<^verbatim>\<open>setup(x, widget_list)\<close>. The name \<open>setup\<close> is a keyword of Isabelle, so the constant
  is \<open>setup_widgets\<close>.
\<close>

definition setup_widgets :: "('f, 'c, 'e, 'v) calls \<Rightarrow> 'v \<Rightarrow> ('f, 'c) pyobj
    \<Rightarrow> (('f, 'c) pyobj, 'e) exn + 'v" where
  "setup_widgets call x widget_list = setup_loop call x (as_widget_list widget_list)"

text \<open>
  The specification's description of one widget, used to state that \<open>setup_widgets\<close> is
  a left fold: a callable is applied to the running value, a non-empty tuple or list
  \<open>(fn, a1, ..., ak)\<close> is invoked as \<open>fn(y, a1, ..., ak)\<close>, \<open>None\<close> and the empty tuple or list
  are skipped, and any other entry is an invalid argument.
\<close>

fun widget_step :: "('f, 'c, 'e, 'v) calls \<Rightarrow> 'v \<Rightarrow> ('f, 'c) pyobj
    \<Rightarrow> (('f, 'c) pyobj, 'e) exn + 'v" where
  "widget_step call y (Callable f) = invoke call (Callable f) y []"
| "widget_step call y (PyTuple (fn # args)) = invoke call fn y args"
| "widget_step call y (PyList (fn # args)) = invoke call fn y args"
| "widget_step call y (PyTuple []) = Inr y"
| "widget_step call y (PyList []) = Inr y"
| "widget_step call y PyNone = Inr y"
| "widget_step call y (Opaque c) = Inl (NotCallableValueError (Opaque c))"

definition then_step :: "('f, 'c, 'e, 'v) calls \<Rightarrow> (('f, 'c) pyobj, 'e) exn + 'v
    \<Rightarrow> ('f, 'c) pyobj \<Rightarrow> (('f, 'c) pyobj, 'e) exn + 'v" where
  "then_step call r w = (case r of Inl e \<Rightarrow> Inl e | Inr y \<Rightarrow> widget_step call y w)"

section \<open>Sequence-axis transpose\<close>

text \<open>
  \<^verbatim>\<open>transpose_sequence(seq, seq_axis)\<close>, lines 134 to 136. The tuple assignment
  \<^verbatim>\<open>perm[0], perm[seq_axis] = seq_axis, 0\<close> writes \<^verbatim>\<open>perm[0]\<close> first and \<^verbatim>\<open>perm[seq_axis]\<close>
  second.
\<close>

definition transpose_sequence :: "'a tensor \<Rightarrow> int \<Rightarrow> py_error + 'a tensor" where
  "transpose_sequence seq seq_axis =
     (let perm = map int [0..<length (shape seq)] in
      and_then (setitem perm 0 seq_axis) (\<lambda>perm.
      and_then (setitem perm seq_axis 0) (\<lambda>perm.
      tf_transpose seq perm)))"

text \<open>
  The list \<open>perm\<close> that lines 134 and 135 build for a sequence axis \<open>a\<close> of a tensor with \<open>n\<close>
  axes, and what the specification says of the transpose: axis \<open>0\<close> and axis \<open>a\<close> change
  places, in a shape as in an index.
\<close>

definition swap_perm :: "nat \<Rightarrow> nat \<Rightarrow> int list" where
  "swap_perm n a = (map int [0..<n])[0 := int a, a := 0]"

definition swap_axes :: "nat \<Rightarrow> 'b list \<Rightarrow> 'b list" where
  "swap_axes a xs = xs[0 := xs ! a, a := xs ! 0]"

section \<open>Composition over a sequence\<close>







section \<open>One-hot vectors\<close>

text \<open>
  \<^verbatim>\<open>one_hot(index, dims, dtype)\<close> of the utilities module, with \<^verbatim>\<open>dtype\<close> at its default
  \<^verbatim>\<open>np.uint8\<close>. The index is a Python object: a \<^verbatim>\<open>bool\<close> (which \<^verbatim>\<open>isinstance\<close> counts as an
  \<^verbatim>\<open>int\<close>), an \<^verbatim>\<open>int\<close> that is not a \<^verbatim>\<open>bool\<close>, a list or tuple of such ints, or anything
  else. The result is a numpy array of bytes, a vector in the first branch and a matrix
  in the second.
\<close>

datatype py_index = PyBool bool | PyInt int | PyIntSeq "int list" | NotAnIndex

type_synonym uint8 = "8 word"

datatype ndarray = Vector "uint8 list" | Matrix "uint8 list list"

text \<open>
  numpy keeps dimensions and indices in a signed C integer of 64 bits. \<^verbatim>\<open>np.zeros\<close> refuses
  a dimension that does not fit it, a negative dimension and a size beyond the largest
  array; the allocation itself fails with \<^verbatim>\<open>MemoryError\<close> when the process cannot have the
  bytes. How many bytes it can have is a parameter of the model, \<open>capacity\<close>.
\<close>

definition fits_intp :: "int \<Rightarrow> bool" where
  "fits_intp i \<longleftrightarrow> - (2 ^ 63) \<le> i \<and> i < 2 ^ 63"

definition np_zeros :: "nat \<Rightarrow> int \<Rightarrow> py_error + uint8 list" where
  "np_zeros capacity n =
     (if \<not> fits_intp n then Inl (ValueError ''Maximum allowed dimension exceeded'')
      else if n < 0 then Inl (ValueError ''negative dimensions are not allowed'')
      else if capacity < nat n then Inl MemoryError
      else Inr (replicate (nat n) 0))"

definition np_zeros2 :: "nat \<Rightarrow> int \<Rightarrow> int \<Rightarrow> py_error + uint8 list list" where
  "np_zeros2 capacity m n =
     (if \<not> fits_intp m \<or> \<not> fits_intp n then
        Inl (ValueError ''Maximum allowed dimension exceeded'')
      else if m < 0 \<or> n < 0 then Inl (ValueError ''negative dimensions are not allowed'')
      else if \<not> fits_intp (m * n) then Inl (ValueError ''array is too big'')
      else if capacity < nat (m * n) then Inl MemoryError
      else Inr (replicate (nat m) (replicate (nat n) 0)))"

text \<open>
  \<^verbatim>\<open>ret[index] = 1\<close> on a vector, for a Python \<^verbatim>\<open>int\<close>. An index that fits the C integer is
  an index as of a list. An index from \<open>2\<^sup>6\<^sup>3\<close> up to \<open>2\<^sup>6\<^sup>4 - 1\<close> becomes an unsigned array
  scalar, whose conversion to the C integer raises \<^verbatim>\<open>OverflowError\<close>; any other one is not
  an integer index for numpy, which raises \<^verbatim>\<open>IndexError\<close>.
\<close>

definition np_setitem :: "'a list \<Rightarrow> int \<Rightarrow> 'a \<Rightarrow> py_error + 'a list" where
  "np_setitem a i v =
     (if fits_intp i then setitem a i v
      else if 2 ^ 63 \<le> i \<and> i < 2 ^ 64 then Inl OverflowError
      else Inl IndexError)"

text \<open>
  \<^verbatim>\<open>ret[range(seq_len), index] = 1.0\<close>. numpy first makes an array of the index list: of
  signed integers when all fit, of unsigned 64-bit integers when all are non-negative and
  below \<open>2\<^sup>6\<^sup>4\<close>, which it then reads as signed (so \<open>2\<^sup>6\<^sup>4 - 1\<close> is \<open>-1\<close>), and otherwise of
  a type that is no index. Then row \<open>i\<close> is written at column \<open>index[i]\<close>; one index out of
  range raises \<^verbatim>\<open>IndexError\<close>.
\<close>

definition as_index_array :: "int list \<Rightarrow> py_error + int list" where
  "as_index_array index =
     (if list_all fits_intp index then Inr index
      else if list_all (\<lambda>i. 0 \<le> i \<and> i < 2 ^ 64) index then
        Inr (map (\<lambda>i. if i < 2 ^ 63 then i else i - 2 ^ 64) index)
      else Inl IndexError)"

fun assign_rows :: "('a::one) list list \<Rightarrow> int list \<Rightarrow> py_error + 'a list list" where
  "assign_rows (row # rows) (i # js) =
     (case setitem row i 1 of
        Inl e \<Rightarrow> Inl e
      | Inr row' \<Rightarrow>
          (case assign_rows rows js of Inl e \<Rightarrow> Inl e | Inr rows' \<Rightarrow> Inr (row' # rows')))"
| "assign_rows rows js = Inr rows"

text \<open>
  The function, lines 24 to 33. A \<^verbatim>\<open>bool\<close> takes the first branch, where numpy reads it as
  a mask over the whole vector: \<^verbatim>\<open>ret[True] = 1\<close> writes every entry and \<^verbatim>\<open>ret[False] = 1\<close>
  none.
\<close>

fun one_hot :: "nat \<Rightarrow> py_index \<Rightarrow> int \<Rightarrow> py_error + ndarray" where
  "one_hot capacity (PyBool index) dims =
     and_then (np_zeros capacity dims) (\<lambda>ret.
     Inr (Vector (if index then map (\<lambda>_. 1) ret else ret)))"
| "one_hot capacity (PyInt index) dims =
     and_then (np_zeros capacity dims) (\<lambda>ret.
     and_then (np_setitem ret index 1) (\<lambda>ret.
     Inr (Vector ret)))"
| "one_hot capacity (PyIntSeq index) dims =
     (let seq_len = int (length index) in
      and_then (np_zeros2 capacity seq_len dims) (\<lambda>ret.
      and_then (as_index_array index) (\<lambda>index.
      and_then (assign_rows ret index) (\<lambda>ret.
      Inr (Matrix ret)))))"
| "one_hot capacity NotAnIndex dims =
     Inl (ValueError ''index should be int or list(tuple) of int.'')"

section \<open>Facts about the tensor primitives\<close>

lemma indices_iff:
  "idx \<in> set (indices s) \<longleftrightarrow> length idx = length s \<and> (\<forall>k < length s. idx ! k < s ! k)"
proof (induction s arbitrary: idx)
  case Nil
  show ?case by simp
next
  case (Cons d ds)
  show ?case
  proof (cases idx)
    case Nil
    then show ?thesis by auto
  next
    case (Cons i js)
    have "(\<forall>k < Suc (length ds). (i # js) ! k < (d # ds) ! k) \<longleftrightarrow>
          i < d \<and> (\<forall>k < length ds. js ! k < ds ! k)"
      by (auto simp: less_Suc_eq_0_disj)
    with Cons Cons.IH [of js] show ?thesis by auto
  qed
qed

lemma broadcast_rev_same: "broadcast_rev xs xs = Some xs"
  by (induction xs) simp_all

lemma broadcast_shape_same: "broadcast_shape s s = Some s"
  by (simp add: broadcast_shape_def broadcast_rev_same)

lemma operand_index_valid:
  assumes "idx \<in> set (indices s)"
  shows "operand_index s idx = idx"
proof (rule nth_equalityI)
  from assms have l: "length idx = length s" and b: "\<forall>k < length s. idx ! k < s ! k"
    by (simp_all add: indices_iff)
  show "length (operand_index s idx) = length idx"
    using l by (simp add: operand_index_def)
  fix k
  assume "k < length (operand_index s idx)"
  with l have k: "k < length s" by (simp add: operand_index_def)
  with b have "idx ! k < s ! k" by simp
  then have "s ! k = 1 \<Longrightarrow> idx ! k = 0" by simp
  with k l show "operand_index s idx ! k = idx ! k"
    by (simp add: operand_index_def)
qed

lemma elementwise_same_shape:
  assumes "shape a = s" "shape b = s"
  shows "\<exists>c. elementwise f a b = Inr c \<and> shape c = s
     \<and> (\<forall>idx \<in> set (indices s). entry c idx = f (entry a idx) (entry b idx))"
  using assms by (simp add: elementwise_def broadcast_shape_same operand_index_valid)

lemma tensor_eta: "\<lparr>shape = shape t, entry = entry t\<rparr> = (t :: 'a tensor)"
  by (cases t) simp

section \<open>Properties of the KL divergence\<close>

lemma broadcast_shape_2d:
  "broadcast_shape [a, b] [c, d] =
     (if (a = c \<or> a = 1 \<or> c = 1) \<and> (b = d \<or> b = 1 \<or> d = 1)
      then Some [if a = 1 then c else a, if b = 1 then d else b] else None)"
  by (auto simp: broadcast_shape_def)

lemma operand_index_2d:
  "operand_index [a, b] [i, j] = [if a = 1 then 0 else i, if b = 1 then 0 else j]"
  by (simp add: operand_index_def)

lemma kl_standard_2d:
  assumes "shape mu0 = [m1, n1]" "shape var0 = [m2, n2]"
    and "(m1 = m2 \<or> m1 = 1 \<or> m2 = 1) \<and> (n1 = n2 \<or> n1 = 1 \<or> n2 = 1)"
  shows "\<exists>K. kl_standard mu0 var0 = Inr K
     \<and> shape K = [if m1 = 1 then m2 else m1, if n1 = 1 then n2 else n1]
     \<and> (\<forall>i j. i < (if m1 = 1 then m2 else m1) \<longrightarrow> j < (if n1 = 1 then n2 else n1) \<longrightarrow>
           entry K [i, j] =
             entry var0 [if m2 = 1 then 0 else i, if n2 = 1 then 0 else j]
             + (entry mu0 [if m1 = 1 then 0 else i, if n1 = 1 then 0 else j])\<^sup>2 - 1
             - ln (entry var0 [if m2 = 1 then 0 else i, if n2 = 1 then 0 else j]))"
proof -
  let ?m = "if m1 = 1 then m2 else m1" and ?n = "if n1 = 1 then n2 else n1"
  let ?B = "[?m, ?n]"
  let ?sq = "tmap (\<lambda>v. v\<^sup>2) mu0"
  let ?S = "\<lparr>shape = ?B,
       entry = (\<lambda>idx. entry var0 (operand_index [m2, n2] idx) + entry ?sq (operand_index [m1, n1] idx))\<rparr>"
  have b1: "broadcast_shape [m2, n2] [m1, n1] = Some ?B"
    using assms(3) by (auto simp: broadcast_shape_2d)
  have s: "elementwise (+) var0 ?sq = Inr ?S"
    using assms(1,2) b1 by (simp add: elementwise_def tmap_def)
  have b2: "broadcast_shape ?B [m2, n2] = Some ?B"
    using assms(3) by (auto simp: broadcast_shape_2d)
  let ?T = "tmap (\<lambda>v. v - 1) ?S" and ?L = "tmap ln var0"
  let ?K = "\<lparr>shape = ?B,
       entry = (\<lambda>idx. entry ?T (operand_index ?B idx) - entry ?L (operand_index [m2, n2] idx))\<rparr>"
  have k: "elementwise (-) ?T ?L = Inr ?K"
    using assms(2) b2 by (simp add: elementwise_def tmap_def)
  have res: "kl_standard mu0 var0 = Inr ?K"
    unfolding kl_standard_def by (simp only: s and_then_def sum.case k)
  have el: "entry ?K [i, j] =
             entry var0 [if m2 = 1 then 0 else i, if n2 = 1 then 0 else j]
             + (entry mu0 [if m1 = 1 then 0 else i, if n1 = 1 then 0 else j])\<^sup>2 - 1
             - ln (entry var0 [if m2 = 1 then 0 else i, if n2 = 1 then 0 else j])"
    if i: "i < ?m" and j: "j < ?n" for i j
  proof -
    from i have i0: "?m = 1 \<Longrightarrow> i = 0" by simp
    from j have j0: "?n = 1 \<Longrightarrow> j = 0" by simp
    have own: "operand_index ?B [i, j] = [i, j]"
      using i0 j0 by (simp only: operand_index_2d) auto
    have a: "operand_index [m1, n1] [i, j] = [if m1 = 1 then 0 else i, if n1 = 1 then 0 else j]"
      and b: "operand_index [m2, n2] [i, j] = [if m2 = 1 then 0 else i, if n2 = 1 then 0 else j]"
      by (simp_all only: operand_index_2d)
    have "entry ?K [i, j] = entry ?T [i, j] - entry ?L (operand_index [m2, n2] [i, j])"
      by (simp only: tensor.select_convs own)
    also have "entry ?T [i, j] = entry ?S [i, j] - 1"
      by (simp only: tmap_def tensor.select_convs)
    also have "entry ?S [i, j] =
        entry var0 (operand_index [m2, n2] [i, j]) + (entry mu0 (operand_index [m1, n1] [i, j]))\<^sup>2"
      by (simp only: tmap_def tensor.select_convs)
    also have "entry ?L (operand_index [m2, n2] [i, j]) = ln (entry var0 (operand_index [m2, n2] [i, j]))"
      by (simp only: tmap_def tensor.select_convs)
    finally show ?thesis by (simp only: a b)
  qed
  from res el show ?thesis by (intro exI [of _ ?K]) simp
qed

lemma sum_list_upt_cong:
  "(\<And>j. j < n \<Longrightarrow> f j = g j) \<Longrightarrow> (\<Sum>j\<leftarrow>[0..<n]. f j) = (\<Sum>j\<leftarrow>[0..<n]. g j :: real)"
  by (rule arg_cong [where f = sum_list]) simp

lemma kl_normal_broadcast:
  assumes "shape mu0 = [m1, n1]" "shape var0 = [m2, n2]"
    and "(m1 = m2 \<or> m1 = 1 \<or> m2 = 1) \<and> (n1 = n2 \<or> n1 = 1 \<or> n2 = 1)"
  shows "\<exists>kl. kl_normal mu0 var0 (PyFloat 0) (PyFloat 1) = Inr kl
     \<and> shape kl = [if m1 = 1 then m2 else m1]
     \<and> (\<forall>i < (if m1 = 1 then m2 else m1). entry kl [i] =
           1 / 2 * (\<Sum>j\<leftarrow>[0..<if n1 = 1 then n2 else n1].
              (entry var0 [if m2 = 1 then 0 else i, if n2 = 1 then 0 else j] + 1 / 10 ^ 4)
              + (entry mu0 [if m1 = 1 then 0 else i, if n1 = 1 then 0 else j])\<^sup>2 - 1
              - ln (entry var0 [if m2 = 1 then 0 else i, if n2 = 1 then 0 else j] + 1 / 10 ^ 4)))"
proof -
  let ?e = "1 / 10 ^ 4 :: real"
  let ?v = "tmap (\<lambda>v. v + ?e) var0"
  let ?m = "if m1 = 1 then m2 else m1" and ?n = "if n1 = 1 then n2 else n1"
  have shv: "shape ?v = [m2, n2]" using assms(2) by (simp add: tmap_def)
  from kl_standard_2d [OF assms(1) shv assms(3)] obtain K where
    ks: "kl_standard mu0 ?v = Inr K" and shK: "shape K = [?m, ?n]"
    and elK: "\<forall>i j. i < ?m \<longrightarrow> j < ?n \<longrightarrow>
           entry K [i, j] =
             entry ?v [if m2 = 1 then 0 else i, if n2 = 1 then 0 else j]
             + (entry mu0 [if m1 = 1 then 0 else i, if n1 = 1 then 0 else j])\<^sup>2 - 1
             - ln (entry ?v [if m2 = 1 then 0 else i, if n2 = 1 then 0 else j])"
    by blast
  let ?R = "\<lparr>shape = [?m], entry = (\<lambda>idx. \<Sum>j\<leftarrow>[0..<?n]. entry K (take 1 idx @ j # drop 1 idx))\<rparr>"
  have rs: "tf_reduce_sum K 1 = Inr ?R"
    by (simp add: tf_reduce_sum_def shK)
  let ?kl = "tmap (\<lambda>v. (1 / 2) * v) ?R"
  have res: "kl_normal mu0 var0 (PyFloat 0) (PyFloat 1) = Inr ?kl"
    unfolding kl_normal_def Let_def kl_reduce_def
    by (simp only: py_equals.simps simp_thms if_True ks and_then_def sum.case rs)
  have sh: "shape ?kl = [?m]" by (simp add: tmap_def)
  have el: "entry ?kl [i] =
           1 / 2 * (\<Sum>j\<leftarrow>[0..<?n].
              (entry var0 [if m2 = 1 then 0 else i, if n2 = 1 then 0 else j] + ?e)
              + (entry mu0 [if m1 = 1 then 0 else i, if n1 = 1 then 0 else j])\<^sup>2 - 1
              - ln (entry var0 [if m2 = 1 then 0 else i, if n2 = 1 then 0 else j] + ?e))"
    if i: "i < ?m" for i
  proof -
    have "(\<Sum>j\<leftarrow>[0..<?n]. entry K [i, j]) =
        (\<Sum>j\<leftarrow>[0..<?n].
              (entry var0 [if m2 = 1 then 0 else i, if n2 = 1 then 0 else j] + ?e)
              + (entry mu0 [if m1 = 1 then 0 else i, if n1 = 1 then 0 else j])\<^sup>2 - 1
              - ln (entry var0 [if m2 = 1 then 0 else i, if n2 = 1 then 0 else j] + ?e))"
    proof (rule sum_list_upt_cong)
      fix j assume "j < ?n"
      with elK i have "entry K [i, j] =
             entry ?v [if m2 = 1 then 0 else i, if n2 = 1 then 0 else j]
             + (entry mu0 [if m1 = 1 then 0 else i, if n1 = 1 then 0 else j])\<^sup>2 - 1
             - ln (entry ?v [if m2 = 1 then 0 else i, if n2 = 1 then 0 else j])"
        by blast
      then show "entry K [i, j] =
              (entry var0 [if m2 = 1 then 0 else i, if n2 = 1 then 0 else j] + ?e)
              + (entry mu0 [if m1 = 1 then 0 else i, if n1 = 1 then 0 else j])\<^sup>2 - 1
              - ln (entry var0 [if m2 = 1 then 0 else i, if n2 = 1 then 0 else j] + ?e)"
        by (simp add: tmap_def)
    qed
    then show ?thesis by (simp add: tmap_def)
  qed
  from res sh el show ?thesis by blast
qed

lemma kl_normal_incompatible:
  assumes "shape mu0 = [m1, n1]" "shape var0 = [m2, n2]"
    and "\<not> ((m1 = m2 \<or> m1 = 1 \<or> m2 = 1) \<and> (n1 = n2 \<or> n1 = 1 \<or> n2 = 1))"
  shows "kl_normal mu0 var0 (PyFloat 0) (PyFloat 1) = Inl InvalidArgumentError"
proof -
  have "broadcast_shape [m2, n2] [m1, n1] = None"
    using assms(3) by (auto simp: broadcast_shape_2d)
  then have "kl_standard mu0 (tmap (\<lambda>v. v + 1 / 10 ^ 4) var0) = Inl InvalidArgumentError"
    using assms(1,2) by (simp add: kl_standard_def elementwise_def tmap_def and_then_def)
  then show ?thesis
    by (simp add: kl_normal_def and_then_def)
qed


lemma ln_gap_bounds:
  fixes x :: real
  assumes "0 \<le> x" "x \<le> 1"
  shows "0 \<le> x - ln (1 + x)" and "x - ln (1 + x) \<le> x\<^sup>2"
  using ln_add_one_self_le_self [OF assms(1)] ln_one_plus_pos_lower_bound [OF assms]
  by simp_all

lemma ln_gap_lower:
  "4 / 10 ^ 9 < 1 / 10 ^ 4 - ln (1 + 1 / 10 ^ 4 :: real)"
proof -
  let ?y = "1 / 10 ^ 4 - 4 / 10 ^ 9 :: real"
  have "1 + ?y + ?y\<^sup>2 / 2 \<le> exp ?y"
    by (rule exp_lower_Taylor_quadratic) simp
  moreover have "1 + 1 / 10 ^ 4 < 1 + ?y + ?y\<^sup>2 / 2"
    by (simp add: power2_eq_square)
  ultimately have "1 + 1 / 10 ^ 4 < exp ?y" by linarith
  then have "ln (1 + 1 / 10 ^ 4 :: real) < ln (exp ?y)"
    by (subst ln_less_cancel_iff) simp_all
  then show ?thesis by simp
qed

lemma kl_normal_zero_one:
  "\<exists>kl. kl_normal (tf_fill [m, n] 0) (tf_fill [m, n] 1) (PyFloat 0) (PyFloat 1) = Inr kl
     \<and> shape kl = [m]
     \<and> (\<forall>i < m. entry kl [i] = real n * (1 / 10 ^ 4 - ln (1 + 1 / 10 ^ 4)) / 2
           \<and> 0 \<le> entry kl [i] \<and> entry kl [i] \<le> real n * (1 / 10 ^ 4)\<^sup>2 / 2
           \<and> (n \<le> 20000 \<longrightarrow> \<bar>entry kl [i]\<bar> \<le> 1 / 10 ^ 4))"
proof -
  let ?e = "1 / 10 ^ 4 :: real"
  have sh: "shape (tf_fill [m, n] (0::real)) = [m, n]" "shape (tf_fill [m, n] (1::real)) = [m, n]"
    by (simp_all add: tf_fill_def)
  have compat: "(m = m \<or> m = 1 \<or> m = 1) \<and> (n = n \<or> n = 1 \<or> n = 1)" by simp
  from kl_normal_broadcast [OF sh compat] obtain kl where
    kl: "kl_normal (tf_fill [m, n] 0) (tf_fill [m, n] 1) (PyFloat 0) (PyFloat 1) = Inr kl"
    and shk: "shape kl = [if m = 1 then m else m]"
    and el: "\<forall>i < (if m = 1 then m else m). entry kl [i] =
           1 / 2 * (\<Sum>j\<leftarrow>[0..<if n = 1 then n else n].
              (entry (tf_fill [m, n] (1::real)) [if m = 1 then 0 else i, if n = 1 then 0 else j] + ?e)
              + (entry (tf_fill [m, n] (0::real)) [if m = 1 then 0 else i, if n = 1 then 0 else j])\<^sup>2 - 1
              - ln (entry (tf_fill [m, n] (1::real)) [if m = 1 then 0 else i, if n = 1 then 0 else j] + ?e))"
    by blast
  let ?g = "?e - ln (1 + ?e)"
  have g: "0 \<le> ?g" "?g \<le> ?e\<^sup>2"
    by (rule ln_gap_bounds; simp)+
  have val: "entry kl [i] = real n * ?g / 2" if "i < m" for i
  proof -
    from el that have "entry kl [i] = 1 / 2 * (\<Sum>j\<leftarrow>[0..<n]. (1 + ?e) + 0\<^sup>2 - 1 - ln (1 + ?e))"
      by (simp add: tf_fill_def)
    also have "(\<Sum>j\<leftarrow>[0..<n]. (1 + ?e) + 0\<^sup>2 - 1 - ln (1 + ?e)) = real n * ?g"
      by (simp add: sum_list_triv)
    finally show ?thesis by simp
  qed
  have bounds: "entry kl [i] = real n * ?g / 2
           \<and> 0 \<le> entry kl [i] \<and> entry kl [i] \<le> real n * ?e\<^sup>2 / 2
           \<and> (n \<le> 20000 \<longrightarrow> \<bar>entry kl [i]\<bar> \<le> ?e)" if i: "i < m" for i
  proof (intro conjI impI)
    show "entry kl [i] = real n * ?g / 2" by (rule val [OF i])
    from g(1) show lo: "0 \<le> entry kl [i]" by (simp add: val [OF i])
    have "real n * ?g \<le> real n * ?e\<^sup>2"
      using g(2) by (rule mult_left_mono) simp
    then show hi: "entry kl [i] \<le> real n * ?e\<^sup>2 / 2" by (simp add: val [OF i])
    assume "n \<le> 20000"
    then have "real n \<le> 20000" by simp
    then have "real n * ?e\<^sup>2 / 2 \<le> 20000 * ?e\<^sup>2 / 2"
      by (intro divide_right_mono mult_right_mono) simp_all
    also have "\<dots> = ?e" by (simp add: power2_eq_square)
    finally have "real n * ?e\<^sup>2 / 2 \<le> ?e" .
    with hi lo show "\<bar>entry kl [i]\<bar> \<le> ?e" by linarith
  qed
  from shk have "shape kl = [m]" by simp
  with kl bounds show ?thesis by blast
qed

lemma kl_normal_zero_one_large:
  "1 / 10 ^ 4 <
     entry (projr (kl_normal (tf_fill [1, 50000] 0) (tf_fill [1, 50000] 1) (PyFloat 0) (PyFloat 1))) [0]"
proof -
  from kl_normal_zero_one [of 1 50000] obtain kl where
    kl: "kl_normal (tf_fill [1, 50000] 0) (tf_fill [1, 50000] 1) (PyFloat 0) (PyFloat 1) = Inr kl"
    and v: "\<forall>i < 1. entry kl [i] = real 50000 * (1 / 10 ^ 4 - ln (1 + 1 / 10 ^ 4)) / 2
           \<and> 0 \<le> entry kl [i] \<and> entry kl [i] \<le> real 50000 * (1 / 10 ^ 4)\<^sup>2 / 2
           \<and> (50000 \<le> (20000::nat) \<longrightarrow> \<bar>entry kl [i]\<bar> \<le> 1 / 10 ^ 4)"
    by blast
  from v have "entry kl [0] = 25000 * (1 / 10 ^ 4 - ln (1 + 1 / 10 ^ 4))" by simp
  with ln_gap_lower have "1 / 10 ^ 4 < entry kl [0]" by simp
  with kl show ?thesis by simp
qed

lemma py_equals_iff: "py_equals x c \<longleftrightarrow> x = PyFloat c"
  by (cases x) auto

lemma kl_general_at_standard: "kl_general mu0 var0 (PyFloat 0) (PyFloat 1) = kl_standard mu0 var0"
  by (simp add: kl_general_def kl_standard_def and_then_def tmap_def tensor_eta)

text \<open>
  Claim C4, as amended. For two-dimensional \<open>mu0\<close> and \<open>var0\<close> whose shapes are compatible
  under broadcasting (equal, or \<open>1\<close> on one side, axis by axis), \<open>kl_normal\<close> with the default
  target returns, for every row of the broadcast shape, half the sum over the row of
  \<open>(var0 + e) + mu0\<^sup>2 - 1 - log (var0 + e)\<close> with \<open>e = 1e-4\<close>, an operand being read at index \<open>0\<close>
  along an axis where its dimension is \<open>1\<close>: the epsilon is added to the variance before the
  logarithm. For two-dimensional shapes that are not compatible the call raises. For a
  mean of zeros and a variance of ones with \<open>n\<close> features, every entry of the result is
  \<open>n * (e - log (1 + e)) / 2\<close>, which lies between \<open>0\<close> and \<open>n * e\<^sup>2 / 2\<close> and so is within \<open>e\<close> of
  zero for up to \<open>20000\<close> features (in exact arithmetic).
\<close>

theorem kl_normal_standard_formula:
  "(shape mu0 = [m1, n1] \<and> shape var0 = [m2, n2]
      \<and> (m1 = m2 \<or> m1 = 1 \<or> m2 = 1) \<and> (n1 = n2 \<or> n1 = 1 \<or> n2 = 1) \<longrightarrow>
      (\<exists>kl. kl_normal mu0 var0 (PyFloat 0) (PyFloat 1) = Inr kl
         \<and> shape kl = [if m1 = 1 then m2 else m1]
         \<and> (\<forall>i < (if m1 = 1 then m2 else m1). entry kl [i] =
               1 / 2 * (\<Sum>j\<leftarrow>[0..<if n1 = 1 then n2 else n1].
                  (entry var0 [if m2 = 1 then 0 else i, if n2 = 1 then 0 else j] + 1 / 10 ^ 4)
                  + (entry mu0 [if m1 = 1 then 0 else i, if n1 = 1 then 0 else j])\<^sup>2 - 1
                  - ln (entry var0 [if m2 = 1 then 0 else i, if n2 = 1 then 0 else j] + 1 / 10 ^ 4)))))
   \<and> (shape mu0 = [m1, n1] \<and> shape var0 = [m2, n2]
      \<and> \<not> ((m1 = m2 \<or> m1 = 1 \<or> m2 = 1) \<and> (n1 = n2 \<or> n1 = 1 \<or> n2 = 1)) \<longrightarrow>
      kl_normal mu0 var0 (PyFloat 0) (PyFloat 1) = Inl InvalidArgumentError)
   \<and> (\<exists>kl. kl_normal (tf_fill [m, n] 0) (tf_fill [m, n] 1) (PyFloat 0) (PyFloat 1) = Inr kl
         \<and> shape kl = [m]
         \<and> (\<forall>i < m. entry kl [i] = real n * (1 / 10 ^ 4 - ln (1 + 1 / 10 ^ 4)) / 2
               \<and> 0 \<le> entry kl [i] \<and> entry kl [i] \<le> real n * (1 / 10 ^ 4)\<^sup>2 / 2
               \<and> (n \<le> 20000 \<longrightarrow> \<bar>entry kl [i]\<bar> \<le> 1 / 10 ^ 4)))"
proof (intro conjI impI)
  assume "shape mu0 = [m1, n1] \<and> shape var0 = [m2, n2]
      \<and> (m1 = m2 \<or> m1 = 1 \<or> m2 = 1) \<and> (n1 = n2 \<or> n1 = 1 \<or> n2 = 1)"
  then have "shape mu0 = [m1, n1]" and "shape var0 = [m2, n2]"
    and "(m1 = m2 \<or> m1 = 1 \<or> m2 = 1) \<and> (n1 = n2 \<or> n1 = 1 \<or> n2 = 1)"
    by simp_all
  then show "\<exists>kl. kl_normal mu0 var0 (PyFloat 0) (PyFloat 1) = Inr kl
         \<and> shape kl = [if m1 = 1 then m2 else m1]
         \<and> (\<forall>i < (if m1 = 1 then m2 else m1). entry kl [i] =
               1 / 2 * (\<Sum>j\<leftarrow>[0..<if n1 = 1 then n2 else n1].
                  (entry var0 [if m2 = 1 then 0 else i, if n2 = 1 then 0 else j] + 1 / 10 ^ 4)
                  + (entry mu0 [if m1 = 1 then 0 else i, if n1 = 1 then 0 else j])\<^sup>2 - 1
                  - ln (entry var0 [if m2 = 1 then 0 else i, if n2 = 1 then 0 else j] + 1 / 10 ^ 4)))"
    by (rule kl_normal_broadcast)
next
  assume "shape mu0 = [m1, n1] \<and> shape var0 = [m2, n2]
      \<and> \<not> ((m1 = m2 \<or> m1 = 1 \<or> m2 = 1) \<and> (n1 = n2 \<or> n1 = 1 \<or> n2 = 1))"
  then have "shape mu0 = [m1, n1]" and "shape var0 = [m2, n2]"
    and "\<not> ((m1 = m2 \<or> m1 = 1 \<or> m2 = 1) \<and> (n1 = n2 \<or> n1 = 1 \<or> n2 = 1))"
    by simp_all
  then show "kl_normal mu0 var0 (PyFloat 0) (PyFloat 1) = Inl InvalidArgumentError"
    by (rule kl_normal_incompatible)
next
  show "\<exists>kl. kl_normal (tf_fill [m, n] 0) (tf_fill [m, n] 1) (PyFloat 0) (PyFloat 1) = Inr kl
         \<and> shape kl = [m]
         \<and> (\<forall>i < m. entry kl [i] = real n * (1 / 10 ^ 4 - ln (1 + 1 / 10 ^ 4)) / 2
               \<and> 0 \<le> entry kl [i] \<and> entry kl [i] \<le> real n * (1 / 10 ^ 4)\<^sup>2 / 2
               \<and> (n \<le> 20000 \<longrightarrow> \<bar>entry kl [i]\<bar> \<le> 1 / 10 ^ 4))"
    by (rule kl_normal_zero_one)
qed

theorem kl_normal_standard_formula_witness:
  "\<exists>kl. kl_normal \<lparr>shape = [2, 2], entry = (\<lambda>idx. real (idx ! 0) + 1)\<rparr>
          \<lparr>shape = [1, 2], entry = (\<lambda>idx. if idx ! 0 = 0 then 1 - 1 / 10 ^ 4 else 5)\<rparr>
          (PyFloat 0) (PyFloat 1) = Inr kl
     \<and> shape kl = [2] \<and> entry kl [0] = 1 \<and> entry kl [1] = 4"
proof -
  let ?mu = "\<lparr>shape = [2, 2], entry = (\<lambda>idx. real (idx ! 0) + 1)\<rparr>"
  let ?var = "\<lparr>shape = [1, 2], entry = (\<lambda>idx. if idx ! 0 = 0 then 1 - 1 / 10 ^ 4 else (5::real))\<rparr>"
  have "shape ?mu = [2, 2] \<and> shape ?var = [1, 2]
      \<and> ((2::nat) = 1 \<or> (2::nat) = 1 \<or> (1::nat) = 1) \<and> ((2::nat) = 2 \<or> (2::nat) = 1 \<or> (2::nat) = 1)"
    by simp
  with kl_normal_standard_formula [of ?mu 2 2 ?var 1 2] obtain kl where
    kl: "kl_normal ?mu ?var (PyFloat 0) (PyFloat 1) = Inr kl"
    and sh: "shape kl = [if (2::nat) = 1 then 1 else 2]"
    and el: "\<forall>i < (if (2::nat) = 1 then 1 else 2). entry kl [i] =
               1 / 2 * (\<Sum>j\<leftarrow>[0..<if (2::nat) = 1 then 2 else 2].
                  (entry ?var [if (1::nat) = 1 then 0 else i, if (2::nat) = 1 then 0 else j] + 1 / 10 ^ 4)
                  + (entry ?mu [if (2::nat) = 1 then 0 else i, if (2::nat) = 1 then 0 else j])\<^sup>2 - 1
                  - ln (entry ?var [if (1::nat) = 1 then 0 else i, if (2::nat) = 1 then 0 else j] + 1 / 10 ^ 4))"
    by blast
  from el have e: "\<forall>i < 2. entry kl [i] = 1 / 2 * (\<Sum>j\<leftarrow>[0..<2]. (real i + 1)\<^sup>2)"
    by simp
  from e have "entry kl [0] = 1 / 2 * (\<Sum>j\<leftarrow>[0..<2]. (real 0 + 1)\<^sup>2)" by simp
  then have e0: "entry kl [0] = 1" by (simp add: sum_list_triv)
  from e have "entry kl [1] = 1 / 2 * (\<Sum>j\<leftarrow>[0..<2]. (real 1 + 1)\<^sup>2)" by simp
  then have e1: "entry kl [1] = 4" by (simp add: sum_list_triv)
  from sh have "shape kl = [2]" by simp
  with kl e0 e1 show ?thesis by blast
qed

text \<open>
  The claim as stated fails twice: two-dimensional shapes that do not broadcast make the
  call raise, and for a mean of zeros and a variance of ones with \<open>50000\<close> features the
  result exceeds \<open>1e-4\<close>.
\<close>

theorem kl_normal_every_shape_counterexample:
  "kl_normal (tf_fill [1, 2] 0) (tf_fill [1, 3] 1) (PyFloat 0) (PyFloat 1) = Inl InvalidArgumentError
   \<and> 1 / 10 ^ 4 <
       entry (projr (kl_normal (tf_fill [1, 50000] 0) (tf_fill [1, 50000] 1) (PyFloat 0) (PyFloat 1))) [0]"
proof
  have "shape (tf_fill [1, 2] (0::real)) = [1, 2]" and "shape (tf_fill [1, 3] (1::real)) = [1, 3]"
    and "\<not> (((1::nat) = 1 \<or> (1::nat) = 1 \<or> (1::nat) = 1) \<and> ((2::nat) = 3 \<or> (2::nat) = 1 \<or> (3::nat) = 1))"
    by (simp_all add: tf_fill_def)
  then show "kl_normal (tf_fill [1, 2] 0) (tf_fill [1, 3] 1) (PyFloat 0) (PyFloat 1) = Inl InvalidArgumentError"
    by (rule kl_normal_incompatible)
next
  show "1 / 10 ^ 4 <
      entry (projr (kl_normal (tf_fill [1, 50000] 0) (tf_fill [1, 50000] 1) (PyFloat 0) (PyFloat 1))) [0]"
    by (rule kl_normal_zero_one_large)
qed

text \<open>
  Claim C5. The expression of the special branch (line 71) is the expression of the general
  branch (line 74) at \<open>mu1 = 0.0\<close> and a \<open>var1\<close> of exactly \<open>1.0\<close>, for all \<open>mu0\<close> and \<open>var0\<close>; the
  two differ only in that the general branch, when it is taken, first adds \<open>1e-4\<close> to \<open>var1\<close>
  (line 73). So the default call computes the general formula with \<open>var1\<close> at \<open>1.0\<close>, and it
  agrees with the call that enters the general branch with \<open>var1 = 1.0 - 1e-4\<close>. The branch
  is chosen by the Python equality of the two arguments with the floats \<open>0.0\<close> and \<open>1.0\<close>:
  tensors always take the general branch, whatever their entries. Of the arithmetic, the
  identity of the two expressions uses only \<open>v / 1 = v\<close> and \<open>v - 0 = v\<close>.
\<close>

theorem kl_normal_special_branch:
  "kl_standard mu0 var0 = kl_general mu0 var0 (PyFloat 0) (PyFloat 1)
   \<and> kl_normal mu0 var0 mu1 var1 =
       and_then
         (if mu1 = PyFloat 0 \<and> var1 = PyFloat 1
          then kl_general mu0 (tmap (\<lambda>v. v + 1 / 10 ^ 4) var0) (PyFloat 0) (PyFloat 1)
          else kl_general mu0 (tmap (\<lambda>v. v + 1 / 10 ^ 4) var0) mu1 (plus_float var1 (1 / 10 ^ 4)))
         kl_reduce
   \<and> kl_normal mu0 var0 (Tensor z) (Tensor u) =
       and_then
         (kl_general mu0 (tmap (\<lambda>v. v + 1 / 10 ^ 4) var0) (Tensor z)
            (Tensor (tmap (\<lambda>v. v + 1 / 10 ^ 4) u)))
         kl_reduce
   \<and> kl_normal mu0 var0 (PyFloat 0) (PyFloat (1 - 1 / 10 ^ 4)) =
       kl_normal mu0 var0 (PyFloat 0) (PyFloat 1)"
  by (simp add: kl_normal_def kl_general_at_standard py_equals_iff Let_def)

section \<open>Properties of the gradient clipping\<close>

lemma zip_clipped:
  "map (\<lambda>(grad, pair). (grad, snd pair)) (zip (map g (map fst ps)) ps) =
     map (\<lambda>p. (g (fst p), snd p)) ps"
  by (induction ps) simp_all

text \<open>
  Claim C3. \<open>clip_gradient([], max_norm)\<close> succeeds for every \<open>max_norm\<close>: the call returns
  the empty pair list, a global norm of zero before the clipping and a global norm of zero
  after it, and raises nothing.
\<close>

theorem clip_gradient_empty:
  "clip_gradient [] max_norm = ([], 0, 0)"
  by (simp add: clip_gradient_def tf_clip_by_global_norm_def tf_global_norm_def)

text \<open>
  Claim C7. The pair list that \<open>clip_gradient\<close> returns has the length and the order of its
  input, and the second component (the variable) of each returned pair is the second
  component of the input pair at the same place: only the gradients are rescaled, each by
  the one factor of the clipping (unless \<open>max_norm\<close> and the global norm are both \<open>0\<close>, where
  the framework's factor is not a number). This holds for every pair list, the non-empty
  ones of the claim among them.
\<close>

theorem clip_gradient_keeps_variables:
  "length (fst (clip_gradient pair_list max_norm)) = length pair_list
   \<and> map snd (fst (clip_gradient pair_list max_norm)) = map snd pair_list
   \<and> (max_norm \<noteq> 0 \<or> tf_global_norm (map fst pair_list) \<noteq> 0 \<longrightarrow>
        map fst (fst (clip_gradient pair_list max_norm)) =
        map (map_option (tmap (\<lambda>v. v * clip_scale (tf_global_norm (map fst pair_list)) max_norm)))
          (map fst pair_list))"
proof -
  let ?g = "map_option (tmap (\<lambda>v. v * clip_scale (tf_global_norm (map fst pair_list)) max_norm))"
  have fst_eq: "map (\<lambda>(grad, _). grad) pair_list = map fst pair_list"
    by (simp add: case_prod_unfold)
  have "fst (clip_gradient pair_list max_norm) =
      map (\<lambda>(grad, pair). (grad, snd pair)) (zip (map ?g (map fst pair_list)) pair_list)"
    by (simp add: clip_gradient_def tf_clip_by_global_norm_def fst_eq Let_def)
  also have "\<dots> = map (\<lambda>p. (?g (fst p), snd p)) pair_list"
    by (rule zip_clipped)
  finally have eq: "fst (clip_gradient pair_list max_norm) = map (\<lambda>p. (?g (fst p), snd p)) pair_list" .
  show ?thesis by (simp add: eq comp_def)
qed

theorem clip_gradient_keeps_variables_witness:
  "length (fst (clip_gradient [(Some (tf_fill [2] 3), ''w''), (None, ''b'')] (- 1))) = 2
   \<and> map snd (fst (clip_gradient [(Some (tf_fill [2] 3), ''w''), (None, ''b'')] (- 1))) = [''w'', ''b'']
   \<and> map fst (fst (clip_gradient [(Some (tf_fill [2] 3), ''w''), (None, ''b'')] (- 1))) =
       [Some (tf_fill [2] 3), None]"
proof -
  let ?pl = "[(Some (tf_fill [2] 3), ''w''), (None, ''b'')] :: (real tensor option \<times> string) list"
  have "(- 1 :: real) \<noteq> 0 \<or> tf_global_norm (map fst ?pl) \<noteq> 0" by simp
  with clip_gradient_keeps_variables [of ?pl "- 1"] show ?thesis
    by (simp add: clip_scale_def tmap_def tf_fill_def)
qed

section \<open>Properties of the sequential composition\<close>

lemma setup_loop_step:
  "setup_loop call y (w # ws) =
     (case widget_step call y w of Inl e \<Rightarrow> Inl e | Inr y' \<Rightarrow> setup_loop call y' ws)"
  by (cases "(call, y, w)" rule: widget_step.cases) (auto split: sum.splits)

lemma then_step_Inl: "then_step call (Inl e) w = Inl e"
  by (simp add: then_step_def)

lemma then_step_Inr: "then_step call (Inr y) w = widget_step call y w"
  by (simp add: then_step_def)

lemma foldl_then_step_Inl: "foldl (then_step call) (Inl e) ws = Inl e"
  by (induction ws) (simp_all add: then_step_Inl)

lemma setup_loop_foldl:
  "setup_loop call y ws = foldl (then_step call) (Inr y) ws"
proof (induction ws arbitrary: y)
  case Nil
  show ?case by simp
next
  case (Cons w ws)
  show ?case
  proof (cases "widget_step call y w")
    case (Inl e)
    then show ?thesis
      by (simp only: setup_loop_step foldl_Cons then_step_Inr sum.case foldl_then_step_Inl)
  next
    case (Inr y')
    then show ?thesis
      using Cons.IH [of y']
      by (simp only: setup_loop_step foldl_Cons then_step_Inr sum.case)
  qed
qed

lemma setup_loop_append:
  "setup_loop call y (pre @ post) =
     (case setup_loop call y pre of Inl e \<Rightarrow> Inl e | Inr y' \<Rightarrow> setup_loop call y' post)"
proof (induction pre arbitrary: y)
  case Nil
  show ?case by simp
next
  case (Cons w pre)
  show ?case
    by (cases "widget_step call y w") (simp_all only: append_Cons setup_loop_step sum.case Cons.IH)
qed

lemma widget_step_value_error:
  "widget_step call y w = Inl (NotCallableValueError u) \<longleftrightarrow>
     u = w \<and> \<not> callable w \<and> \<not> is_tuple_or_list w \<and> \<not> is_None w"
  by (cases "(call, y, w)" rule: widget_step.cases)
     (auto split: sum.splits elim: invoke.elims)

lemma widget_step_Inr_recognised:
  "widget_step call y w = Inr y' \<Longrightarrow> callable w \<or> is_tuple_or_list w \<or> is_None w"
  by (cases "(call, y, w)" rule: widget_step.cases) auto

lemma setup_loop_Inr_recognised:
  "setup_loop call y ws = Inr z \<Longrightarrow> \<forall>u \<in> set ws. callable u \<or> is_tuple_or_list u \<or> is_None u"
proof (induction ws arbitrary: y)
  case Nil
  show ?case by simp
next
  case (Cons w ws)
  from Cons.prems obtain y' where st: "widget_step call y w = Inr y'"
    and rest: "setup_loop call y' ws = Inr z"
    by (auto simp del: setup_loop.simps simp add: setup_loop_step split: sum.splits)
  from widget_step_Inr_recognised [OF st] Cons.IH [OF rest] show ?case by simp
qed

lemma setup_loop_value_error_reached:
  "setup_loop call y ws = Inl (NotCallableValueError w) \<Longrightarrow>
     \<exists>pre post z. ws = pre @ w # post \<and> setup_loop call y pre = Inr z
       \<and> \<not> callable w \<and> \<not> is_tuple_or_list w \<and> \<not> is_None w"
proof (induction ws arbitrary: y)
  case Nil
  then show ?case by simp
next
  case (Cons u ws)
  show ?case
  proof (cases "widget_step call y u")
    case (Inl e)
    with Cons.prems have "widget_step call y u = Inl (NotCallableValueError w)"
      by (simp del: setup_loop.simps add: setup_loop_step)
    then have "u = w" and bad: "\<not> callable w \<and> \<not> is_tuple_or_list w \<and> \<not> is_None w"
      by (simp_all add: widget_step_value_error)
    then have "u # ws = [] @ w # ws \<and> setup_loop call y [] = Inr y" by simp
    with bad show ?thesis by blast
  next
    case (Inr y')
    with Cons.prems have "setup_loop call y' ws = Inl (NotCallableValueError w)"
      by (simp del: setup_loop.simps add: setup_loop_step)
    from Cons.IH [OF this] obtain pre post z where
      ws: "ws = pre @ w # post" and run: "setup_loop call y' pre = Inr z"
      and bad: "\<not> callable w \<and> \<not> is_tuple_or_list w \<and> \<not> is_None w"
      by blast
    from ws have "u # ws = (u # pre) @ w # post" by simp
    moreover from run Inr have "setup_loop call y (u # pre) = Inr z"
      by (simp del: setup_loop.simps add: setup_loop_step)
    ultimately show ?thesis using bad by blast
  qed
qed

lemma setup_loop_raises_at_entry:
  assumes "setup_loop call y pre = Inr z"
    and "\<not> callable w" "\<not> is_tuple_or_list w" "\<not> is_None w"
  shows "setup_loop call y (pre @ w # post) = Inl (NotCallableValueError w)"
  using assms by (simp add: setup_loop_append)

lemma widget_step_type_error:
  "widget_step call y w = Inl (CallTypeError fn) \<longleftrightarrow>
     \<not> callable w \<and> is_tuple_or_list w \<and> items w \<noteq> [] \<and> hd (items w) = fn \<and> \<not> callable fn"
proof (cases "(call, y, w)" rule: widget_step.cases)
  case (2 call' y' g args)
  then show ?thesis by (cases g) (auto split: sum.splits)
next
  case (3 call' y' g args)
  then show ?thesis by (cases g) (auto split: sum.splits)
qed (auto split: sum.splits)

lemma widget_step_no_library: "widget_step call y w \<noteq> Inl (Library e)"
proof (cases "(call, y, w)" rule: widget_step.cases)
  case (2 call' y' g args)
  then show ?thesis by (cases g) (auto split: sum.splits)
next
  case (3 call' y' g args)
  then show ?thesis by (cases g) (auto split: sum.splits)
qed (auto split: sum.splits)

lemma setup_loop_no_library: "setup_loop call y ws \<noteq> Inl (Library e)"
proof (induction ws arbitrary: y)
  case Nil
  show ?case by simp
next
  case (Cons w ws)
  show ?case
  proof (cases "widget_step call y w")
    case (Inl e')
    with widget_step_no_library [of call y w e] show ?thesis
      by (simp del: setup_loop.simps add: setup_loop_step)
  next
    case (Inr y')
    with Cons.IH [of y'] show ?thesis
      by (simp del: setup_loop.simps add: setup_loop_step)
  qed
qed

lemma setup_loop_type_error_reached:
  "setup_loop call y ws = Inl (CallTypeError fn) \<Longrightarrow>
     \<exists>pre w post z. ws = pre @ w # post \<and> setup_loop call y pre = Inr z
       \<and> \<not> callable w \<and> is_tuple_or_list w \<and> items w \<noteq> [] \<and> hd (items w) = fn
       \<and> \<not> callable fn"
proof (induction ws arbitrary: y)
  case Nil
  then show ?case by simp
next
  case (Cons u ws)
  show ?case
  proof (cases "widget_step call y u")
    case (Inl e)
    with Cons.prems have "widget_step call y u = Inl (CallTypeError fn)"
      by (simp del: setup_loop.simps add: setup_loop_step)
    then have bad: "\<not> callable u \<and> is_tuple_or_list u \<and> items u \<noteq> [] \<and> hd (items u) = fn
        \<and> \<not> callable fn"
      by (simp add: widget_step_type_error)
    have "u # ws = [] @ u # ws \<and> setup_loop call y [] = Inr y" by simp
    with bad show ?thesis by blast
  next
    case (Inr y')
    with Cons.prems have "setup_loop call y' ws = Inl (CallTypeError fn)"
      by (simp del: setup_loop.simps add: setup_loop_step)
    from Cons.IH [OF this] obtain pre w post z where
      ws: "ws = pre @ w # post" and run: "setup_loop call y' pre = Inr z"
      and bad: "\<not> callable w \<and> is_tuple_or_list w \<and> items w \<noteq> [] \<and> hd (items w) = fn
        \<and> \<not> callable fn"
      by blast
    from ws have "u # ws = (u # pre) @ w # post" by simp
    moreover from run Inr have "setup_loop call y (u # pre) = Inr z"
      by (simp del: setup_loop.simps add: setup_loop_step)
    ultimately show ?thesis using bad by blast
  qed
qed

lemma setup_loop_type_error_at_entry:
  assumes "setup_loop call y pre = Inr z"
    and "\<not> callable w" "is_tuple_or_list w" "items w \<noteq> []" "\<not> callable (hd (items w))"
  shows "setup_loop call y (pre @ w # post) = Inl (CallTypeError (hd (items w)))"
proof -
  from assms(2-5) have "widget_step call z w = Inl (CallTypeError (hd (items w)))"
    by (simp add: widget_step_type_error)
  with assms(1) show ?thesis
    by (simp del: setup_loop.simps add: setup_loop_append setup_loop_step)
qed

lemma setup_loop_outcomes:
  "(\<exists>z. setup_loop call y ws = Inr z) \<or> (\<exists>e. setup_loop call y ws = Inl (Raised e))
   \<or> (\<exists>w. setup_loop call y ws = Inl (NotCallableValueError w))
   \<or> (\<exists>fn. setup_loop call y ws = Inl (CallTypeError fn))"
proof (cases "setup_loop call y ws")
  case (Inl e)
  with setup_loop_no_library [of call y ws] show ?thesis by (cases e) auto
next
  case (Inr z)
  then show ?thesis by simp
qed

text \<open>
  Claim C1. For every initial value and every list of widgets, \<open>setup\<close> is the left fold
  of the specification's step over the list, started at the initial value: a callable
  replaces the running value \<open>y\<close> by \<open>w(y)\<close>, a non-empty tuple or list by
  \<open>fn(y, a1, ..., ak)\<close>, \<open>None\<close> and an empty tuple leave it unchanged, and the last value is
  returned (an exception of a callee ends the fold and is the result). In particular
  \<open>setup(x, [f, (g, a), None])\<close> is \<open>g(f(x), a)\<close>, and a single widget that is neither a
  list nor a tuple is treated as the list holding it.
\<close>

theorem setup_folds_left_to_right:
  "setup_widgets call x (PyList ws) = foldl (then_step call) (Inr x) ws
   \<and> setup_widgets call x (PyList [Callable f, PyTuple [Callable g, Opaque a], PyNone]) =
       (case call f x [] of
          Inl e \<Rightarrow> Inl (Raised e)
        | Inr y \<Rightarrow> (case call g y [Opaque a] of Inl e \<Rightarrow> Inl (Raised e) | Inr z \<Rightarrow> Inr z))
   \<and> (\<not> is_tuple_or_list w \<longrightarrow> setup_widgets call x w = setup_widgets call x (PyList [w]))"
proof (intro conjI impI)
  show "setup_widgets call x (PyList ws) = foldl (then_step call) (Inr x) ws"
    by (simp add: setup_widgets_def as_widget_list_def setup_loop_foldl)
  show "setup_widgets call x (PyList [Callable f, PyTuple [Callable g, Opaque a], PyNone]) =
       (case call f x [] of
          Inl e \<Rightarrow> Inl (Raised e)
        | Inr y \<Rightarrow> (case call g y [Opaque a] of Inl e \<Rightarrow> Inl (Raised e) | Inr z \<Rightarrow> Inr z))"
    by (simp add: setup_widgets_def as_widget_list_def split: sum.splits)
  show "setup_widgets call x w = setup_widgets call x (PyList [w])" if "\<not> is_tuple_or_list w"
    using that by (simp add: setup_widgets_def as_widget_list_def)
qed

theorem setup_folds_left_to_right_witness:
  "setup_widgets (\<lambda>f y args. Inr (y * int f + int (length args)) :: unit + int) 5
       (PyList [Callable (2::nat), PyTuple [Callable 3, Opaque ()], PyNone]) = Inr 31
   \<and> \<not> is_tuple_or_list (Callable (2::nat) :: (nat, unit) pyobj)
   \<and> setup_widgets (\<lambda>f y args. Inr (y * int f + int (length args)) :: unit + int) 5
       (Callable (2::nat) :: (nat, unit) pyobj) = Inr 10"
proof -
  let ?call = "\<lambda>f y args. Inr (y * int f + int (length args)) :: unit + int"
  let ?ws = "[Callable (2::nat), PyTuple [Callable 3, Opaque ()], PyNone] :: (nat, unit) pyobj list"
  note fold = setup_folds_left_to_right [of ?call 5 ?ws 2 3 "()" "Callable 2"]
  have run: "foldl (then_step ?call) (Inr 5) ?ws = Inr 31"
    by (simp add: then_step_def)
  have single: "setup_widgets ?call 5 (PyList [Callable (2::nat) :: (nat, unit) pyobj]) = Inr 10"
    by (simp add: setup_widgets_def as_widget_list_def)
  from fold run single show ?thesis by simp
qed

text \<open>
  Claim C8, as amended. \<open>setup\<close> raises its invalid-argument error (the \<open>ValueError\<close> of line
  121) for an entry \<open>w\<close> if and only if \<open>w\<close> is an entry of the widget list that is neither
  callable, nor a tuple or list, nor \<open>None\<close>, and the fold reached it (the entries before it
  ran without an exception). It is then the first such entry: every entry before it has an
  accepted shape. When every entry has an accepted shape, \<open>setup\<close> raises no such error, but
  it can still fail by itself: a non-empty tuple or list whose head is not callable is
  called unchecked at line 115, and the interpreter's \<open>TypeError\<close> for that head is the result
  exactly when the fold reaches such an entry. When every entry is callable, \<open>None\<close>, an
  empty tuple or list, or a tuple or list with a callable head, \<open>setup\<close> raises nothing by
  itself: it returns, or an exception of a callee passes through.
\<close>

theorem setup_value_error_iff:
  "(setup_widgets call x widget_list = Inl (NotCallableValueError w) \<longleftrightarrow>
      (\<exists>pre post y. as_widget_list widget_list = pre @ w # post
         \<and> setup_loop call x pre = Inr y
         \<and> \<not> callable w \<and> \<not> is_tuple_or_list w \<and> \<not> is_None w))
   \<and> (setup_widgets call x widget_list = Inl (NotCallableValueError w) \<longrightarrow>
      (\<exists>pre post. as_widget_list widget_list = pre @ w # post
         \<and> (\<forall>u \<in> set pre. callable u \<or> is_tuple_or_list u \<or> is_None u)))
   \<and> ((\<forall>u \<in> set (as_widget_list widget_list). callable u \<or> is_tuple_or_list u \<or> is_None u)
        \<longrightarrow> (\<forall>u. setup_widgets call x widget_list \<noteq> Inl (NotCallableValueError u)))
   \<and> (setup_widgets call x widget_list = Inl (CallTypeError fn) \<longleftrightarrow>
      (\<exists>pre u post y. as_widget_list widget_list = pre @ u # post
         \<and> setup_loop call x pre = Inr y
         \<and> \<not> callable u \<and> is_tuple_or_list u \<and> items u \<noteq> [] \<and> hd (items u) = fn
         \<and> \<not> callable fn))
   \<and> ((\<forall>u \<in> set (as_widget_list widget_list).
          callable u \<or> is_None u
          \<or> (is_tuple_or_list u \<and> (items u = [] \<or> callable (hd (items u)))))
        \<longrightarrow> (\<exists>y. setup_widgets call x widget_list = Inr y)
            \<or> (\<exists>e. setup_widgets call x widget_list = Inl (Raised e)))"
proof (intro conjI impI iffI allI)
  assume "setup_widgets call x widget_list = Inl (NotCallableValueError w)"
  then show "\<exists>pre post y. as_widget_list widget_list = pre @ w # post
         \<and> setup_loop call x pre = Inr y
         \<and> \<not> callable w \<and> \<not> is_tuple_or_list w \<and> \<not> is_None w"
    unfolding setup_widgets_def by (rule setup_loop_value_error_reached)
next
  assume "\<exists>pre post y. as_widget_list widget_list = pre @ w # post
         \<and> setup_loop call x pre = Inr y
         \<and> \<not> callable w \<and> \<not> is_tuple_or_list w \<and> \<not> is_None w"
  then show "setup_widgets call x widget_list = Inl (NotCallableValueError w)"
    unfolding setup_widgets_def by (auto simp: setup_loop_raises_at_entry)
next
  assume "setup_widgets call x widget_list = Inl (NotCallableValueError w)"
  then obtain pre post y where "as_widget_list widget_list = pre @ w # post"
    and "setup_loop call x pre = Inr y"
    unfolding setup_widgets_def by (blast dest: setup_loop_value_error_reached)
  then show "\<exists>pre post. as_widget_list widget_list = pre @ w # post
         \<and> (\<forall>u \<in> set pre. callable u \<or> is_tuple_or_list u \<or> is_None u)"
    by (blast dest: setup_loop_Inr_recognised)
next
  fix u
  assume ok: "\<forall>u \<in> set (as_widget_list widget_list). callable u \<or> is_tuple_or_list u \<or> is_None u"
  show "setup_widgets call x widget_list \<noteq> Inl (NotCallableValueError u)"
  proof
    assume "setup_widgets call x widget_list = Inl (NotCallableValueError u)"
    then obtain pre post where "as_widget_list widget_list = pre @ u # post"
      and "\<not> callable u \<and> \<not> is_tuple_or_list u \<and> \<not> is_None u"
      unfolding setup_widgets_def by (blast dest: setup_loop_value_error_reached)
    with ok show False by auto
  qed
next
  assume "setup_widgets call x widget_list = Inl (CallTypeError fn)"
  then show "\<exists>pre u post y. as_widget_list widget_list = pre @ u # post
         \<and> setup_loop call x pre = Inr y
         \<and> \<not> callable u \<and> is_tuple_or_list u \<and> items u \<noteq> [] \<and> hd (items u) = fn
         \<and> \<not> callable fn"
    unfolding setup_widgets_def by (rule setup_loop_type_error_reached)
next
  assume "\<exists>pre u post y. as_widget_list widget_list = pre @ u # post
         \<and> setup_loop call x pre = Inr y
         \<and> \<not> callable u \<and> is_tuple_or_list u \<and> items u \<noteq> [] \<and> hd (items u) = fn
         \<and> \<not> callable fn"
  then obtain pre u post y where "as_widget_list widget_list = pre @ u # post"
    and "setup_loop call x pre = Inr y" and "\<not> callable u" "is_tuple_or_list u" "items u \<noteq> []"
    and "hd (items u) = fn" "\<not> callable fn"
    by blast
  then show "setup_widgets call x widget_list = Inl (CallTypeError fn)"
    unfolding setup_widgets_def using setup_loop_type_error_at_entry [of call x pre y u post]
    by simp
next
  assume ok: "\<forall>u \<in> set (as_widget_list widget_list).
          callable u \<or> is_None u
          \<or> (is_tuple_or_list u \<and> (items u = [] \<or> callable (hd (items u))))"
  have no_value: "setup_widgets call x widget_list \<noteq> Inl (NotCallableValueError u)" for u
  proof
    assume "setup_widgets call x widget_list = Inl (NotCallableValueError u)"
    then obtain pre post where "as_widget_list widget_list = pre @ u # post"
      and "\<not> callable u \<and> \<not> is_tuple_or_list u \<and> \<not> is_None u"
      unfolding setup_widgets_def by (blast dest: setup_loop_value_error_reached)
    with ok show False by auto
  qed
  have no_type: "setup_widgets call x widget_list \<noteq> Inl (CallTypeError g)" for g
  proof
    assume "setup_widgets call x widget_list = Inl (CallTypeError g)"
    then obtain pre u post where "as_widget_list widget_list = pre @ u # post"
      and "\<not> callable u \<and> is_tuple_or_list u \<and> items u \<noteq> [] \<and> hd (items u) = g
        \<and> \<not> callable g"
      unfolding setup_widgets_def by (blast dest: setup_loop_type_error_reached)
    with ok show False by (cases u) auto
  qed
  from setup_loop_outcomes [of call x "as_widget_list widget_list"] no_value no_type
  show "(\<exists>y. setup_widgets call x widget_list = Inr y)
            \<or> (\<exists>e. setup_widgets call x widget_list = Inl (Raised e))"
    unfolding setup_widgets_def by blast
qed

theorem setup_value_error_iff_witness:
  "setup_widgets (\<lambda>f y args. Inr (y + int f) :: unit + int) 1
       (PyList [Callable (4::nat), Opaque (), Callable 1]) =
     Inl (NotCallableValueError (Opaque ()))
   \<and> (\<forall>u. setup_widgets (\<lambda>f y args. Inr (y + int f) :: unit + int) 1
       (PyList [Callable (4::nat), PyNone, PyTuple [], Opaque ()]) \<noteq>
     Inl (NotCallableValueError (PyNone :: (nat, unit) pyobj)))
   \<and> (\<forall>u. setup_widgets (\<lambda>f y args. Inr (y + int f) :: unit + int) 1
       (PyList [Callable (4::nat), PyNone, PyTuple [Callable 2, Opaque ()]]) \<noteq>
     Inl (NotCallableValueError (u :: (nat, unit) pyobj)))
   \<and> setup_widgets (\<lambda>f y args. Inr (y + int f) :: unit + int) 1
       (PyList [Callable (4::nat), PyTuple [Opaque ()], Callable 1]) =
     Inl (CallTypeError (Opaque ()))
   \<and> ((\<exists>y. setup_widgets (\<lambda>f y args. Inr (y + int f) :: unit + int) 1
          (PyList [Callable (4::nat), PyNone, PyTuple [Callable 2, Opaque ()]]) = Inr y)
      \<or> (\<exists>e. setup_widgets (\<lambda>f y args. Inr (y + int f) :: unit + int) 1
          (PyList [Callable (4::nat), PyNone, PyTuple [Callable 2, Opaque ()]]) = Inl (Raised e)))"
proof (intro conjI)
  let ?call = "\<lambda>f y args. Inr (y + int f) :: unit + int"
  let ?wl = "PyList [Callable (4::nat), Opaque (), Callable 1] :: (nat, unit) pyobj"
  have "as_widget_list ?wl = [Callable 4] @ Opaque () # [Callable 1]
      \<and> setup_loop ?call 1 [Callable 4] = Inr 5
      \<and> \<not> callable (Opaque () :: (nat, unit) pyobj)
      \<and> \<not> is_tuple_or_list (Opaque () :: (nat, unit) pyobj)
      \<and> \<not> is_None (Opaque () :: (nat, unit) pyobj)"
    by (simp add: as_widget_list_def)
  then have "\<exists>pre post y. as_widget_list ?wl = pre @ Opaque () # post
      \<and> setup_loop ?call 1 pre = Inr y
      \<and> \<not> callable (Opaque () :: (nat, unit) pyobj)
      \<and> \<not> is_tuple_or_list (Opaque () :: (nat, unit) pyobj)
      \<and> \<not> is_None (Opaque () :: (nat, unit) pyobj)"
    by blast
  with setup_value_error_iff [of ?call 1 ?wl "Opaque ()"]
  show "setup_widgets ?call 1 ?wl = Inl (NotCallableValueError (Opaque ()))"
    by blast
next
  let ?call = "\<lambda>f y args. Inr (y + int f) :: unit + int"
  let ?wl = "PyList [Callable (4::nat), PyNone, PyTuple [], Opaque ()] :: (nat, unit) pyobj"
  have "\<not> (\<exists>pre post y. as_widget_list ?wl = pre @ PyNone # post
      \<and> setup_loop ?call 1 pre = Inr y
      \<and> \<not> callable (PyNone :: (nat, unit) pyobj)
      \<and> \<not> is_tuple_or_list (PyNone :: (nat, unit) pyobj)
      \<and> \<not> is_None (PyNone :: (nat, unit) pyobj))"
    by simp
  with setup_value_error_iff [of ?call 1 ?wl PyNone]
  show "\<forall>u. setup_widgets ?call 1 ?wl \<noteq> Inl (NotCallableValueError (PyNone :: (nat, unit) pyobj))"
    by blast
next
  let ?call = "\<lambda>f y args. Inr (y + int f) :: unit + int"
  let ?wl = "PyList [Callable (4::nat), PyNone, PyTuple [Callable 2, Opaque ()]] :: (nat, unit) pyobj"
  have "\<forall>u \<in> set (as_widget_list ?wl). callable u \<or> is_tuple_or_list u \<or> is_None u"
    by (simp add: as_widget_list_def)
  with setup_value_error_iff [of ?call 1 ?wl]
  show "\<forall>u. setup_widgets ?call 1 ?wl \<noteq> Inl (NotCallableValueError u)"
    by blast
next
  let ?call = "\<lambda>f y args. Inr (y + int f) :: unit + int"
  let ?wl = "PyList [Callable (4::nat), PyTuple [Opaque ()], Callable 1] :: (nat, unit) pyobj"
  let ?u = "PyTuple [Opaque ()] :: (nat, unit) pyobj"
  have "as_widget_list ?wl = [Callable 4] @ ?u # [Callable 1]
      \<and> setup_loop ?call 1 [Callable 4] = Inr 5
      \<and> \<not> callable ?u \<and> is_tuple_or_list ?u \<and> items ?u \<noteq> [] \<and> hd (items ?u) = Opaque ()
      \<and> \<not> callable (Opaque () :: (nat, unit) pyobj)"
    by (simp add: as_widget_list_def)
  then have "\<exists>pre u post y. as_widget_list ?wl = pre @ u # post
      \<and> setup_loop ?call 1 pre = Inr y
      \<and> \<not> callable u \<and> is_tuple_or_list u \<and> items u \<noteq> [] \<and> hd (items u) = Opaque ()
      \<and> \<not> callable (Opaque () :: (nat, unit) pyobj)"
    by blast
  with setup_value_error_iff [of ?call 1 ?wl _ "Opaque ()"]
  show "setup_widgets ?call 1 ?wl = Inl (CallTypeError (Opaque ()))"
    by blast
next
  let ?call = "\<lambda>f y args. Inr (y + int f) :: unit + int"
  let ?wl = "PyList [Callable (4::nat), PyNone, PyTuple [Callable 2, Opaque ()]] :: (nat, unit) pyobj"
  have "\<forall>u \<in> set (as_widget_list ?wl).
          callable u \<or> is_None u
          \<or> (is_tuple_or_list u \<and> (items u = [] \<or> callable (hd (items u))))"
    by (simp add: as_widget_list_def)
  with setup_value_error_iff [of ?call 1 ?wl]
  show "(\<exists>y. setup_widgets ?call 1 ?wl = Inr y) \<or> (\<exists>e. setup_widgets ?call 1 ?wl = Inl (Raised e))"
    by blast
qed

text \<open>
  The claim as stated fails: the one entry of \<open>[(c,)]\<close> is a tuple, an accepted shape, and
  \<open>setup\<close> fails at line 115 with a \<open>TypeError\<close> that no callee raised.
\<close>

theorem setup_accepted_shapes_counterexample:
  "as_widget_list (PyList [PyTuple [Opaque ()]] :: (nat, unit) pyobj) = [PyTuple [Opaque ()]]
   \<and> is_tuple_or_list (PyTuple [Opaque ()] :: (nat, unit) pyobj)
   \<and> setup_widgets (\<lambda>f y args. Inr y :: unit + int) 0
         (PyList [PyTuple [Opaque ()]] :: (nat, unit) pyobj) =
       Inl (CallTypeError (Opaque ()))"
  by (simp add: setup_widgets_def as_widget_list_def)

text \<open>
  Claim C9. A tuple passed as the widget list is the widget sequence itself: it is not
  wrapped, and its elements are the widgets. So \<open>setup(x, (f, g))\<close> is \<open>g(f(x))\<close>, and
  \<open>setup(x, (f, c))\<close> with \<open>c\<close> not callable applies \<open>f\<close> to \<open>x\<close> and then raises the invalid
  argument error on \<open>c\<close>; it never computes \<open>f(x, c)\<close>, which is what the same tuple does as
  an entry of a list.
\<close>

theorem setup_tuple_is_the_sequence:
  "as_widget_list (PyTuple ws) = ws
   \<and> setup_widgets call x (PyTuple ws) = setup_widgets call x (PyList ws)
   \<and> setup_widgets call x (PyTuple [Callable f, Callable g]) =
       (case call f x [] of
          Inl e \<Rightarrow> Inl (Raised e)
        | Inr y \<Rightarrow> (case call g y [] of Inl e \<Rightarrow> Inl (Raised e) | Inr z \<Rightarrow> Inr z))
   \<and> setup_widgets call x (PyTuple [Callable f, Opaque c]) =
       (case call f x [] of
          Inl e \<Rightarrow> Inl (Raised e)
        | Inr y \<Rightarrow> Inl (NotCallableValueError (Opaque c)))
   \<and> setup_widgets call x (PyList [PyTuple [Callable f, Opaque c]]) =
       (case call f x [Opaque c] of Inl e \<Rightarrow> Inl (Raised e) | Inr z \<Rightarrow> Inr z)"
  by (simp add: setup_widgets_def as_widget_list_def split: sum.splits)

section \<open>Properties of the sequence-axis transpose\<close>

lemma position_nth:
  "distinct xs \<Longrightarrow> j < length xs \<Longrightarrow> position xs (xs ! j) = j"
proof (induction xs arbitrary: j)
  case Nil
  then show ?case by simp
next
  case (Cons x xs)
  then show ?case by (cases j) auto
qed

lemma swap_perm_nth:
  "a < n \<Longrightarrow> k < n \<Longrightarrow> swap_perm n a ! k = int (if k = a then 0 else if k = 0 then a else k)"
  by (simp add: swap_perm_def nth_list_update)

lemma swap_perm_length: "length (swap_perm n a) = n"
  by (simp add: swap_perm_def)

lemma swap_perm_distinct: "a < n \<Longrightarrow> distinct (swap_perm n a)"
  by (auto simp: distinct_conv_nth swap_perm_length swap_perm_nth split: if_splits)

lemma swap_perm_is_permutation: "a < n \<Longrightarrow> is_permutation n (swap_perm n a)"
  by (auto simp: is_permutation_def swap_perm_length swap_perm_distinct list_all_length swap_perm_nth)

lemma swap_perm_position:
  assumes "a < n" "k < n"
  shows "position (swap_perm n a) (int k) = (if k = a then 0 else if k = 0 then a else k)"
proof -
  let ?j = "if k = a then 0 else if k = 0 then a else k"
  from assms have j: "?j < length (swap_perm n a)" by (simp add: swap_perm_length)
  from assms have "swap_perm n a ! ?j = int k"
    by (auto simp: swap_perm_nth)
  with position_nth [OF swap_perm_distinct [OF assms(1)] j] show ?thesis by simp
qed

lemma swap_axes_nth:
  "a < length xs \<Longrightarrow> k < length xs \<Longrightarrow>
     swap_axes a xs ! k = xs ! (if k = a then 0 else if k = 0 then a else k)"
  by (auto simp: swap_axes_def nth_list_update)

lemma swap_axes_length: "length (swap_axes a xs) = length xs"
  by (simp add: swap_axes_def)

lemma swap_axes_twice:
  assumes "a < length xs"
  shows "swap_axes a (swap_axes a xs) = xs"
proof (rule nth_equalityI)
  show "length (swap_axes a (swap_axes a xs)) = length xs"
    by (simp add: swap_axes_length)
next
  fix k
  assume "k < length (swap_axes a (swap_axes a xs))"
  then have k: "k < length xs" by (simp add: swap_axes_length)
  let ?j = "if k = a then 0 else if k = 0 then a else k"
  from k assms have j: "?j < length xs" by auto
  have "swap_axes a (swap_axes a xs) ! k = swap_axes a xs ! ?j"
    using assms k by (simp only: swap_axes_nth swap_axes_length)
  also have "\<dots> = xs ! (if ?j = a then 0 else if ?j = 0 then a else ?j)"
    using assms j by (simp only: swap_axes_nth)
  also have "\<dots> = xs ! k" by simp
  finally show "swap_axes a (swap_axes a xs) ! k = xs ! k" .
qed

lemma transpose_sequence_swap:
  assumes "0 \<le> a" "a < int (length (shape seq))"
  shows "transpose_sequence seq a =
     Inr \<lparr>shape = swap_axes (nat a) (shape seq),
          entry = (\<lambda>idx. entry seq (map (\<lambda>k. idx ! position (swap_perm (length (shape seq)) (nat a)) (int k))
                    [0..<length (shape seq)]))\<rparr>"
proof -
  let ?n = "length (shape seq)"
  from assms have a: "nat a < ?n" by simp
  from assms have n0: "0 < ?n" by linarith
  have s1: "setitem (map int [0..<?n]) 0 a = Inr ((map int [0..<?n])[0 := a])"
    using n0 by (simp add: setitem_def)
  have s2: "setitem ((map int [0..<?n])[0 := a]) a 0 = Inr (swap_perm ?n (nat a))"
    using assms by (simp add: setitem_def swap_perm_def)
  have sh: "map (\<lambda>p. shape seq ! nat p) (swap_perm ?n (nat a)) = swap_axes (nat a) (shape seq)"
    using a by (auto simp: list_eq_iff_nth_eq swap_perm_length swap_axes_length swap_perm_nth swap_axes_nth)
  show ?thesis
    using swap_perm_is_permutation [OF a]
    by (simp add: transpose_sequence_def and_then_def s1 s2 tf_transpose_def sh swap_perm_length)
qed

lemma transpose_sequence_elem:
  assumes "0 \<le> a" "a < int (length (shape seq))" "transpose_sequence seq a = Inr t"
    and "length idx = length (shape seq)"
  shows "entry t idx = entry seq (swap_axes (nat a) idx)"
proof -
  let ?n = "length (shape seq)"
  from assms have a: "nat a < ?n" by simp
  have "map (\<lambda>k. idx ! position (swap_perm ?n (nat a)) (int k)) [0..<?n] = swap_axes (nat a) idx"
  proof (rule nth_equalityI)
    show "length (map (\<lambda>k. idx ! position (swap_perm ?n (nat a)) (int k)) [0..<?n]) =
        length (swap_axes (nat a) idx)"
      using assms(4) by (simp add: swap_axes_length)
  next
    fix k
    assume "k < length (map (\<lambda>k. idx ! position (swap_perm ?n (nat a)) (int k)) [0..<?n])"
    then have k: "k < ?n" by simp
    with a assms(4) show "map (\<lambda>k. idx ! position (swap_perm ?n (nat a)) (int k)) [0..<?n] ! k =
        swap_axes (nat a) idx ! k"
      by (simp add: swap_axes_nth swap_perm_position)
  qed
  with assms(3) transpose_sequence_swap [OF assms(1,2)] show ?thesis by auto
qed

text \<open>
  Claim C6. For every tensor and every valid axis \<open>a\<close> (\<open>0 \<le> a < rank\<close>),
  \<open>transpose_sequence\<close> succeeds, and applied twice with the same axis it gives back the
  original tensor: the permutation swaps axis \<open>0\<close> with axis \<open>a\<close> and leaves every other axis in
  place, in the shape and in the entries.
\<close>

theorem transpose_sequence_twice:
  assumes "0 \<le> a" "a < int (length (shape seq))"
  shows "\<exists>t1 t2. transpose_sequence seq a = Inr t1 \<and> transpose_sequence t1 a = Inr t2
      \<and> tensor_eq t2 seq
      \<and> shape t1 = swap_axes (nat a) (shape seq)
      \<and> (\<forall>idx \<in> set (indices (shape t1)). entry t1 idx = entry seq (swap_axes (nat a) idx))"
proof -
  let ?n = "length (shape seq)"
  from assms have a: "nat a < ?n" by simp
  from transpose_sequence_swap [OF assms] obtain t1 where
    t1: "transpose_sequence seq a = Inr t1" and sh1: "shape t1 = swap_axes (nat a) (shape seq)"
    by simp
  from sh1 have len1: "length (shape t1) = ?n" by (simp add: swap_axes_length)
  with assms have a1: "a < int (length (shape t1))" by simp
  from transpose_sequence_swap [OF assms(1) a1] obtain t2 where
    t2: "transpose_sequence t1 a = Inr t2" and sh2: "shape t2 = swap_axes (nat a) (shape t1)"
    by simp
  from sh1 sh2 a have sh: "shape t2 = shape seq" by (simp add: swap_axes_twice)
  have e1: "entry t1 idx = entry seq (swap_axes (nat a) idx)" if "length idx = ?n" for idx
    using transpose_sequence_elem [OF assms t1] that by simp
  have e2: "entry t2 idx = entry t1 (swap_axes (nat a) idx)" if "length idx = ?n" for idx
    using transpose_sequence_elem [OF assms(1) a1 t2] that len1 by simp
  have "entry t2 idx = entry seq idx" if "idx \<in> set (indices (shape seq))" for idx
  proof -
    from that have l: "length idx = ?n" by (simp add: indices_iff)
    with a show ?thesis by (simp add: e2 e1 swap_axes_length swap_axes_twice)
  qed
  with sh have "tensor_eq t2 seq" by (simp add: tensor_eq_def)
  moreover have "\<forall>idx \<in> set (indices (shape t1)). entry t1 idx = entry seq (swap_axes (nat a) idx)"
    using e1 len1 by (simp add: indices_iff)
  ultimately show ?thesis using t1 t2 sh1 by blast
qed

theorem transpose_sequence_twice_witness:
  "\<exists>t1 t2.
     transpose_sequence \<lparr>shape = [2, 3], entry = (\<lambda>idx. int (idx ! 0) * 3 + int (idx ! 1))\<rparr> 1 = Inr t1
     \<and> transpose_sequence t1 1 = Inr t2
     \<and> tensor_eq t2 \<lparr>shape = [2, 3], entry = (\<lambda>idx. int (idx ! 0) * 3 + int (idx ! 1))\<rparr>
     \<and> shape t1 = [3, 2] \<and> entry t1 [2, 1] = 5"
proof -
  let ?seq = "\<lparr>shape = [2, 3], entry = (\<lambda>idx. int (idx ! 0) * 3 + int (idx ! 1))\<rparr>"
  have h: "(0::int) \<le> 1" "1 < int (length (shape ?seq))" by simp_all
  from transpose_sequence_twice [OF h] obtain t1 t2 where
    t1: "transpose_sequence ?seq 1 = Inr t1" and t2: "transpose_sequence t1 1 = Inr t2"
    and eq: "tensor_eq t2 ?seq" and sh: "shape t1 = swap_axes (nat 1) (shape ?seq)"
    and el: "\<forall>idx \<in> set (indices (shape t1)). entry t1 idx = entry ?seq (swap_axes (nat 1) idx)"
    by blast
  from sh have sh': "shape t1 = [3, 2]" by (simp add: swap_axes_def)
  have "[2, 1] \<in> set (indices (shape t1))"
    by (simp add: sh' indices_iff less_Suc_eq numeral_2_eq_2)
  with el have "entry t1 [2, 1] = entry ?seq (swap_axes (nat 1) [2, 1])" by blast
  then have "entry t1 [2, 1] = 5" by (simp add: swap_axes_def)
  with t1 t2 eq sh' show ?thesis by blast
qed

section \<open>Properties of the composition over a sequence\<close>













section \<open>Properties of the one-hot encoding\<close>

text \<open>
  Claim C10, as amended. For an \<^verbatim>\<open>int\<close> index (not a \<^verbatim>\<open>bool\<close>) with \<open>-dims \<le> index < 0\<close> and a
  dimension \<open>0 < dims < 2\<^sup>6\<^sup>3\<close> whose vector numpy can allocate, \<open>one_hot\<close> does not raise: it
  returns a vector of length \<open>dims\<close> whose entry at position \<open>dims + index\<close> is \<open>1\<close> and whose
  other entries are \<open>0\<close>. For a dimension \<open>0 \<le> dims < 2\<^sup>6\<^sup>3\<close> whose vector is allocated, an
  \<^verbatim>\<open>int\<close> index outside \<open>[-dims, dims)\<close> raises from the array write: \<^verbatim>\<open>OverflowError\<close> for
  \<open>2\<^sup>6\<^sup>3 \<le> index < 2\<^sup>6\<^sup>4\<close> and \<^verbatim>\<open>IndexError\<close> otherwise, never the invalid-argument
  \<^verbatim>\<open>ValueError\<close> of line 32, which is raised for an index that is neither an \<^verbatim>\<open>int\<close> nor a
  list or tuple. numpy's own \<^verbatim>\<open>ValueError\<close> is raised before the write for a dimension that
  is negative or not below \<open>2\<^sup>6\<^sup>3\<close>, and \<^verbatim>\<open>MemoryError\<close> when the vector cannot be allocated.
\<close>

theorem one_hot_negative_index:
  "(0 < dims \<and> dims < 2 ^ 63 \<and> nat dims \<le> capacity \<and> - dims \<le> index \<and> index < 0 \<longrightarrow>
      (\<exists>v. one_hot capacity (PyInt index) dims = Inr (Vector v) \<and> int (length v) = dims
         \<and> (\<forall>k < length v. v ! k = (if int k = dims + index then 1 else 0))))
   \<and> (0 \<le> dims \<and> dims < 2 ^ 63 \<and> nat dims \<le> capacity \<and> (index < - dims \<or> dims \<le> index) \<longrightarrow>
        one_hot capacity (PyInt index) dims =
          Inl (if 2 ^ 63 \<le> index \<and> index < 2 ^ 64 then OverflowError else IndexError))
   \<and> one_hot capacity NotAnIndex dims =
        Inl (ValueError ''index should be int or list(tuple) of int.'')
   \<and> (dims < 0 \<or> 2 ^ 63 \<le> dims \<longrightarrow>
        (\<exists>msg. one_hot capacity (PyInt index) dims = Inl (ValueError msg)
           \<and> msg \<noteq> ''index should be int or list(tuple) of int.''))
   \<and> (0 \<le> dims \<and> dims < 2 ^ 63 \<and> capacity < nat dims \<longrightarrow>
        one_hot capacity (PyInt index) dims = Inl MemoryError)"
proof (intro conjI impI)
  assume a: "0 < dims \<and> dims < 2 ^ 63 \<and> nat dims \<le> capacity \<and> - dims \<le> index \<and> index < 0"
  let ?v = "(replicate (nat dims) 0)[nat (index + dims) := 1] :: uint8 list"
  from a have fit: "fits_intp dims" "fits_intp index" by (simp_all add: fits_intp_def)
  from a fit have "one_hot capacity (PyInt index) dims = Inr (Vector ?v)"
    by (simp add: np_zeros_def np_setitem_def setitem_def and_then_def)
  moreover from a have "int (length ?v) = dims" by simp
  moreover from a have "\<forall>k < length ?v. ?v ! k = (if int k = dims + index then 1 else 0)"
    by (auto simp: nth_list_update)
  ultimately show "\<exists>v. one_hot capacity (PyInt index) dims = Inr (Vector v) \<and> int (length v) = dims
         \<and> (\<forall>k < length v. v ! k = (if int k = dims + index then 1 else 0))"
    by blast
next
  assume a: "0 \<le> dims \<and> dims < 2 ^ 63 \<and> nat dims \<le> capacity \<and> (index < - dims \<or> dims \<le> index)"
  then have fit: "fits_intp dims" by (simp add: fits_intp_def)
  have z: "np_zeros capacity dims = Inr (replicate (nat dims) 0)"
    using a fit by (simp add: np_zeros_def)
  have "np_setitem (replicate (nat dims) (0::uint8)) index 1 =
      Inl (if 2 ^ 63 \<le> index \<and> index < 2 ^ 64 then OverflowError else IndexError)"
  proof (cases "fits_intp index")
    case True
    then have "\<not> (2 ^ 63 \<le> index \<and> index < 2 ^ 64)" by (simp add: fits_intp_def)
    moreover from a have "setitem (replicate (nat dims) (0::uint8)) index 1 = Inl IndexError"
      by (auto simp: setitem_def)
    ultimately show ?thesis using True by (simp add: np_setitem_def)
  next
    case False
    then show ?thesis by (simp add: np_setitem_def)
  qed
  with z show "one_hot capacity (PyInt index) dims =
          Inl (if 2 ^ 63 \<le> index \<and> index < 2 ^ 64 then OverflowError else IndexError)"
    by (simp add: and_then_def)
next
  show "one_hot capacity NotAnIndex dims =
      Inl (ValueError ''index should be int or list(tuple) of int.'')"
    by simp
next
  assume "dims < 0 \<or> 2 ^ 63 \<le> dims"
  then have "one_hot capacity (PyInt index) dims = Inl (ValueError ''Maximum allowed dimension exceeded'')
      \<or> one_hot capacity (PyInt index) dims = Inl (ValueError ''negative dimensions are not allowed'')"
    by (auto simp: np_zeros_def fits_intp_def and_then_def)
  then show "\<exists>msg. one_hot capacity (PyInt index) dims = Inl (ValueError msg)
           \<and> msg \<noteq> ''index should be int or list(tuple) of int.''"
    by auto
next
  assume "0 \<le> dims \<and> dims < 2 ^ 63 \<and> capacity < nat dims"
  then show "one_hot capacity (PyInt index) dims = Inl MemoryError"
    by (simp add: np_zeros_def fits_intp_def and_then_def)
qed

theorem one_hot_negative_index_witness:
  "one_hot 1000 (PyInt (- 2)) 5 = Inr (Vector [0, 0, 0, 1, 0])
   \<and> one_hot 1000 (PyInt 5) 5 = Inl IndexError
   \<and> one_hot 1000 (PyInt (- 6)) 5 = Inl IndexError
   \<and> one_hot 1000 (PyInt (2 ^ 63 + 7)) 5 = Inl OverflowError
   \<and> one_hot 1000 (PyInt 0) 2000 = Inl MemoryError"
proof -
  note th = one_hot_negative_index
  from th [of 5 1000 "- 2"] obtain v :: "uint8 list" where
    v: "one_hot 1000 (PyInt (- 2)) 5 = Inr (Vector v)" and len: "int (length v) = 5"
    and at: "\<forall>k < length v. v ! k = (if int k = 5 + (- 2) then 1 else 0)"
    by auto
  from len have l5: "length v = 5" by simp
  from at l5 have "v ! 0 = 0" "v ! 1 = 0" "v ! 2 = 0" "v ! 3 = 1" "v ! 4 = 0"
    by simp_all
  with l5 have "v = [0, 0, 0, 1, 0]"
    by (auto simp: list_eq_iff_nth_eq less_Suc_eq numeral_eq_Suc)
  with v th [of 5 1000 5] th [of 5 1000 "- 6"] th [of 5 1000 "2 ^ 63 + 7"] th [of 2000 1000 0]
  show ?thesis by simp
qed

text \<open>
  The claim as stated fails at integers beyond numpy's C integer: the index \<open>2\<^sup>6\<^sup>3\<close> is
  outside \<open>[-5, 5)\<close> and raises \<^verbatim>\<open>OverflowError\<close>, not \<^verbatim>\<open>IndexError\<close>, and the index \<open>-1\<close> with
  the dimension \<open>2\<^sup>7\<^sup>0\<close> raises numpy's \<^verbatim>\<open>ValueError\<close> where the claim promises a vector.
\<close>

theorem one_hot_wide_integers_counterexample:
  "one_hot 1000 (PyInt (2 ^ 63)) 5 = Inl OverflowError
   \<and> one_hot 1000 (PyInt (- 1)) (2 ^ 70) = Inl (ValueError ''Maximum allowed dimension exceeded'')"
  by (simp add: np_zeros_def np_setitem_def fits_intp_def and_then_def)

end
